theory Spec2Isabelle
  imports Main "HOL-Library.Sublist" "HOL-Library.Word"
begin

section \<open>Go values shared by the proxy server and the generated client code\<close>

text \<open>
  gRPC status codes (\<open>google.golang.org/grpc/codes\<close>) with the names their
  \<open>String\<close> method prints.
\<close>

datatype code =
    OK | Canceled | Unknown | InvalidArgument | DeadlineExceeded | NotFound
  | AlreadyExists | PermissionDenied | ResourceExhausted | FailedPrecondition
  | Aborted | OutOfRange | Unimplemented | Internal | Unavailable | DataLoss
  | Unauthenticated

fun code_String :: "code \<Rightarrow> string" where
  "code_String OK = ''OK''"
| "code_String Canceled = ''Canceled''"
| "code_String Unknown = ''Unknown''"
| "code_String InvalidArgument = ''InvalidArgument''"
| "code_String DeadlineExceeded = ''DeadlineExceeded''"
| "code_String NotFound = ''NotFound''"
| "code_String AlreadyExists = ''AlreadyExists''"
| "code_String PermissionDenied = ''PermissionDenied''"
| "code_String ResourceExhausted = ''ResourceExhausted''"
| "code_String FailedPrecondition = ''FailedPrecondition''"
| "code_String Aborted = ''Aborted''"
| "code_String OutOfRange = ''OutOfRange''"
| "code_String Unimplemented = ''Unimplemented''"
| "code_String Internal = ''Internal''"
| "code_String Unavailable = ''Unavailable''"
| "code_String DataLoss = ''DataLoss''"
| "code_String Unauthenticated = ''Unauthenticated''"

text \<open>
  A non-nil Go \<open>error\<close>. A nil error is \<open>None :: error option\<close>. The constructors are
  the errors the modelled code compares against, creates or passes on: \<open>io.EOF\<close>, the two
  errors a context reports once it is done, a gRPC status error, and an error that is
  only its message (\<open>errors.New\<close>, \<open>fmt.Errorf\<close> without \<open>%w\<close>).
\<close>

datatype error =
    io_EOF
  | ctx_Canceled
  | ctx_DeadlineExceeded
  | status_error code string
  | errorString string

text \<open>The method \<open>Error()\<close> of an error: its text.\<close>

fun err_Error :: "error \<Rightarrow> string" where
  "err_Error io_EOF = ''EOF''"
| "err_Error ctx_Canceled = ''context canceled''"
| "err_Error ctx_DeadlineExceeded = ''context deadline exceeded''"
| "err_Error (status_error c msg) = ''rpc error: code = '' @ code_String c @ '' desc = '' @ msg"
| "err_Error (errorString s) = s"

text \<open>
  \<open>status.Error(c, msg)\<close> and \<open>status.Errorf\<close> after formatting: nil for code \<open>OK\<close>,
  a status error otherwise.
\<close>

definition status_Error :: "code \<Rightarrow> string \<Rightarrow> error option" where
  "status_Error c msg = (if c = OK then None else Some (status_error c msg))"

text \<open>The verb \<open>%v\<close> of package \<open>fmt\<close> applied to an \<open>error\<close> value that may be nil.\<close>

definition fmt_v :: "error option \<Rightarrow> string" where
  "fmt_v e = (case e of None \<Rightarrow> ''<nil>'' | Some err \<Rightarrow> err_Error err)"

text \<open>
  How a call ends: it returns a value, it never returns because it waits forever at the
  named operation, or it panics.
\<close>

datatype block_point = at_select | at_range | at_Recv | at_RecvMsg | at_Wait

datatype 'a outcome = Returned 'a | Blocked block_point | Panicked

text \<open>
  What a channel delivers to its reader over a whole run: the values sent on it, in
  order, and whether it is closed after the last of them.
\<close>

datatype 'a chan = Chan "'a list" bool

section \<open>The send pump (\<open>server.go\<close>, \<open>send\<close>)\<close>

text \<open>
  \<open>for msg := range replyChan { if err := stream.Send(msg); err != nil { return err } };
  return nil\<close>.

  The client stream is represented by \<open>Send\<close>, the result of a call of \<open>stream.Send\<close> as
  a function of the frames handed to it before and of the frame handed to it now, and by
  the list \<open>sent\<close> of the frames handed to it so far. A channel that has delivered all
  its values and is not closed blocks the \<open>range\<close> loop forever.
\<close>

fun send :: "('rep list \<Rightarrow> 'rep \<Rightarrow> error option) \<Rightarrow> 'rep chan \<Rightarrow> 'rep list
    \<Rightarrow> error option outcome \<times> 'rep list" where
  "send Send (Chan [] closed) sent =
     (if closed then Returned None else Blocked at_range, sent)"
| "send Send (Chan (msg # rest) closed) sent =
     (case Send sent msg of
        Some err \<Rightarrow> (Returned (Some err), sent @ [msg])
      | None \<Rightarrow> send Send (Chan rest closed) (sent @ [msg]))"

section \<open>The receive pump (\<open>server.go\<close>, \<open>receive\<close>)\<close>

text \<open>The two results of \<open>stream.Recv()\<close>: a frame with a nil error, or an error.\<close>

datatype 'req Recv_result = Recv_msg 'req | Recv_err error

text \<open>
  The \<open>select\<close> of \<open>receive\<close> has two communications: the send on \<open>requestChan\<close> and the
  receive from \<open>ctx.Done()\<close>. A \<open>select_env\<close> is what the statement finds at one moment:
  whether the dispatcher is receiving on the request channel, what \<open>ctx.Err()\<close> is
  (non-nil exactly when \<open>ctx.Done()\<close> is closed), and which communication the runtime
  picks when both can proceed. When none can proceed the statement keeps waiting and
  looks at the next moment; when no moment is left it waits forever.
\<close>

record select_env =
  chan_ready :: bool
  ctx_Err :: "error option"
  pick_Done :: bool

datatype select_arm = SendArm | DoneArm error

fun select :: "select_env list \<Rightarrow> (select_arm \<times> select_env list) option" where
  "select [] = None"
| "select (s # env) =
     (if chan_ready s \<and> (ctx_Err s = None \<or> \<not> pick_Done s) then Some (SendArm, env)
      else case ctx_Err s of
             Some e \<Rightarrow> Some (DoneArm e, env)
           | None \<Rightarrow> select env)"

text \<open>
  \<open>receive env recvs requestChan\<close>: \<open>recvs\<close> are the results the successive calls of
  \<open>stream.Recv()\<close> give (when none is left the call blocks forever), \<open>env\<close> the moments
  the \<open>select\<close> statements see, \<open>requestChan\<close> the frames sent on the request channel so
  far. The result is how \<open>receive\<close> ends and the frames sent on the request channel.
\<close>

fun receive :: "select_env list \<Rightarrow> 'req Recv_result list \<Rightarrow> 'req list
    \<Rightarrow> error option outcome \<times> 'req list" where
  "receive env [] requestChan = (Blocked at_Recv, requestChan)"
| "receive env (Recv_err err # recvs) requestChan =
     (if err = io_EOF then (Returned None, requestChan)
      else (Returned (Some err), requestChan))"
| "receive env (Recv_msg req # recvs) requestChan =
     (case select env of
        None \<Rightarrow> (Blocked at_select, requestChan)
      | Some (SendArm, env') \<Rightarrow> receive env' recvs (requestChan @ [req])
      | Some (DoneArm e, env') \<Rightarrow> (Returned (Some e), requestChan))"

text \<open>
  The goroutine of \<open>Proxy\<close> that runs \<open>receive\<close>: \<open>defer close(requestChan)\<close>, so the
  request channel is closed exactly when \<open>receive\<close> has returned.
\<close>

definition receive_task :: "select_env list \<Rightarrow> 'req Recv_result list
    \<Rightarrow> error option outcome \<times> 'req chan" where
  "receive_task env recvs =
     (case receive env recvs [] of
        (Returned r, sent) \<Rightarrow> (Returned r, Chan sent True)
      | (out, sent) \<Rightarrow> (out, Chan sent False))"

text \<open>
  \<open>selects_send n env\<close>: the next \<open>n\<close> \<open>select\<close> statements of \<open>receive\<close> all send on
  the request channel; the result is what is left of \<open>env\<close> after them.
\<close>

fun selects_send :: "nat \<Rightarrow> select_env list \<Rightarrow> select_env list option" where
  "selects_send 0 env = Some env"
| "selects_send (Suc n) env =
     (case select env of
        Some (SendArm, env') \<Rightarrow> selects_send n env'
      | _ \<Rightarrow> None)"

section \<open>The dispatcher (\<open>server.go\<close>, \<open>dispatch\<close>)\<close>

text \<open>
  Modelled from the spec: the request frames of package \<open>pb\<close>, which is generated code
  and not among the sources. A stream identifier is an unsigned 64-bit integer. A frame is
  identified with the value of its oneof field \<open>Request\<close>; \<open>Request_nil\<close> is a frame
  whose oneof is not set, the only value of the field that has none of the four types.
\<close>

type_synonym stream_id = "64 word"

record StartStream =
  nonce :: nat
  target :: string
  method_name :: string

record StreamData =
  data_stream_ids :: "stream_id list"
  payload :: string

record ClientCancel =
  cancel_stream_ids :: "stream_id list"

record ClientClose =
  close_stream_ids :: "stream_id list"

datatype ProxyRequest =
    ProxyRequest_StartStream StartStream
  | ProxyRequest_StreamData StreamData
  | ProxyRequest_ClientCancel ClientCancel
  | ProxyRequest_ClientClose ClientClose
  | Request_nil

text \<open>
  The methods of \<open>TargetStreamSet\<close> that \<open>dispatch\<close> calls. The type is declared in a
  file of the package that is not among the sources, so the stream set is a parameter:
  a state \<open>'ss\<close> (everything the set owns and has done, its writes to the reply channel
  included) and one function for each method. \<open>Add\<close>, \<open>Send\<close>, \<open>Cancel\<close> and
  \<open>ClientClose\<close> return an error that may be nil; \<open>Wait\<close> returns \<open>None\<close> when it
  never returns. The context and the two channels handed to \<open>Add\<close> are the same for a
  whole session and are left out.
\<close>

record 'ss TargetStreamSet =
  set_Add :: "'ss \<Rightarrow> StartStream \<Rightarrow> error option \<times> 'ss"
  set_Send :: "'ss \<Rightarrow> StreamData \<Rightarrow> error option \<times> 'ss"
  set_Cancel :: "'ss \<Rightarrow> ClientCancel \<Rightarrow> error option \<times> 'ss"
  set_ClientClose :: "'ss \<Rightarrow> ClientClose \<Rightarrow> error option \<times> 'ss"
  set_Remove :: "'ss \<Rightarrow> stream_id \<Rightarrow> 'ss"
  set_ClientCloseAll :: "'ss \<Rightarrow> 'ss"
  set_Wait :: "'ss \<Rightarrow> 'ss option"

text \<open>
  One round of the \<open>select\<close> of \<open>dispatch\<close>, as the communication that proceeds:
  \<^item> \<open>ctx_Done e\<close>: \<open>ctx.Done()\<close> is closed, and \<open>ctx.Err()\<close> is \<open>e\<close> (non-nil once the
    context is done);
  \<^item> \<open>doneChan_recv id\<close>: a target stream published its identifier;
  \<^item> \<open>requestChan_recv req\<close>: a frame arrived (\<open>ok\<close> is true);
  \<^item> \<open>requestChan_closed ctxErr\<close>: the request channel is closed (\<open>ok\<close> is false);
    \<open>ctxErr\<close> is what \<open>ctx.Err()\<close> gives when \<open>dispatch\<close> calls it after \<open>Wait\<close>, nil
    when the context has not been cancelled by then.
  When no communication ever proceeds again the list is empty and \<open>dispatch\<close> waits
  forever.
\<close>

datatype dispatch_event =
    ctx_Done error
  | doneChan_recv stream_id
  | requestChan_recv ProxyRequest
  | requestChan_closed "error option"

fun dispatch :: "'ss TargetStreamSet \<Rightarrow> dispatch_event list \<Rightarrow> 'ss
    \<Rightarrow> error option outcome \<times> 'ss" where
  "dispatch S [] streamSet = (Blocked at_select, streamSet)"
| "dispatch S (ctx_Done e # events) streamSet = (Returned (Some e), streamSet)"
| "dispatch S (doneChan_recv closedStream # events) streamSet =
     dispatch S events (set_Remove S streamSet closedStream)"
| "dispatch S (requestChan_closed ctxErr # events) streamSet =
     (case set_Wait S (set_ClientCloseAll S streamSet) of
        None \<Rightarrow> (Blocked at_Wait, set_ClientCloseAll S streamSet)
      | Some streamSet' \<Rightarrow> (Returned ctxErr, streamSet'))"
| "dispatch S (requestChan_recv (ProxyRequest_StartStream start) # events) streamSet =
     dispatch S events (snd (set_Add S streamSet start))"
| "dispatch S (requestChan_recv (ProxyRequest_StreamData d) # events) streamSet =
     (case set_Send S streamSet d of
        (Some err, streamSet') \<Rightarrow> (Returned (Some err), streamSet')
      | (None, streamSet') \<Rightarrow> dispatch S events streamSet')"
| "dispatch S (requestChan_recv (ProxyRequest_ClientCancel c) # events) streamSet =
     (case set_Cancel S streamSet c of
        (Some err, streamSet') \<Rightarrow> (Returned (Some err), streamSet')
      | (None, streamSet') \<Rightarrow> dispatch S events streamSet')"
| "dispatch S (requestChan_recv (ProxyRequest_ClientClose c) # events) streamSet =
     (case set_ClientClose S streamSet c of
        (Some err, streamSet') \<Rightarrow> (Returned (Some err), streamSet')
      | (None, streamSet') \<Rightarrow> dispatch S events streamSet')"
| "dispatch S (requestChan_recv Request_nil # events) streamSet =
     (Returned (status_Error Internal (''unhandled request type '' @ ''<nil>'')), streamSet)"

text \<open>
  A stream set for the examples. Its state is the list of the names of the calls made
  on it. \<open>Add\<close> fails for the method \<open>/S/Unknown\<close>; \<open>Send\<close>, \<open>Cancel\<close> and
  \<open>ClientClose\<close> fail when stream 0, which is never open, is among the listed streams.
\<close>

definition recording_set :: "string list TargetStreamSet" where
  "recording_set =
     \<lparr>set_Add = (\<lambda>s start.
        (if method_name start = ''/S/Unknown''
         then Some (status_error Unimplemented ''unknown method'') else None, s @ [''Add''])),
      set_Send = (\<lambda>s d.
        (if 0 \<in> set (data_stream_ids d)
         then Some (status_error InvalidArgument ''no such stream'') else None, s @ [''Send''])),
      set_Cancel = (\<lambda>s c.
        (if 0 \<in> set (cancel_stream_ids c)
         then Some (status_error InvalidArgument ''no such stream'') else None,
         s @ [''Cancel''])),
      set_ClientClose = (\<lambda>s c.
        (if 0 \<in> set (close_stream_ids c)
         then Some (status_error InvalidArgument ''no such stream'') else None,
         s @ [''ClientClose''])),
      set_Remove = (\<lambda>s closedStream. s @ [''Remove'']),
      set_ClientCloseAll = (\<lambda>s. s @ [''ClientCloseAll'']),
      set_Wait = (\<lambda>s. Some (s @ [''Wait'']))\<rparr>"

section \<open>The session (\<open>server.go\<close>, \<open>Proxy\<close>)\<close>

text \<open>
  \<open>errgroup.Group\<close> of \<open>golang.org/x/sync\<close>: the first non-nil error a function started
  with \<open>Go\<close> returns is kept (\<open>errOnce\<close>) and cancels the context of the group;
  \<open>Wait\<close> returns once every such function has returned, cancels the context and gives
  the kept error.
\<close>

record Group =
  g_err :: "error option"
  g_errOnce :: bool
  g_cancelled :: bool

definition WithContext :: Group where
  "WithContext = \<lparr>g_err = None, g_errOnce = False, g_cancelled = False\<rparr>"

definition Go_return :: "Group \<Rightarrow> error option \<Rightarrow> Group" where
  "Go_return g r =
     (case r of
        None \<Rightarrow> g
      | Some e \<Rightarrow>
          if g_errOnce g then g
          else g\<lparr>g_err := Some e, g_errOnce := True, g_cancelled := True\<rparr>)"

text \<open>
  The functions started with \<open>Go\<close>, in the order in which they end. \<open>None\<close> when one
  of them does not return: \<open>Wait\<close> then never returns either.
\<close>

fun Go_all :: "Group \<Rightarrow> error option outcome list \<Rightarrow> Group option" where
  "Go_all g [] = Some g"
| "Go_all g (Returned r # rest) = Go_all (Go_return g r) rest"
| "Go_all g (Blocked p # rest) = None"
| "Go_all g (Panicked # rest) = None"

definition group_Wait :: "Group \<Rightarrow> error option \<times> Group" where
  "group_Wait g = (g_err g, g\<lparr>g_cancelled := True\<rparr>)"

datatype task = SendTask | ReceiveTask | DispatchTask

text \<open>
  \<open>Proxy\<close> starts the three tasks and waits for them. An execution is given by what
  the surroundings do: the client stream (\<open>Send\<close>, \<open>recvs\<close>), what the reply channel
  delivers (\<open>replyChan\<close>), the moments the \<open>select\<close> of \<open>receive\<close> sees (\<open>env\<close>), the
  rounds of the \<open>select\<close> of \<open>dispatch\<close> (\<open>events\<close>), and the order in which the three
  tasks end (\<open>order\<close>, a permutation of the tasks). No relation between these is
  assumed, so every execution of the program is one of them.
\<close>

definition task_result :: "'ss TargetStreamSet \<Rightarrow> 'ss \<Rightarrow> ('rep list \<Rightarrow> 'rep \<Rightarrow> error option)
    \<Rightarrow> 'rep chan \<Rightarrow> select_env list \<Rightarrow> ProxyRequest Recv_result list
    \<Rightarrow> dispatch_event list \<Rightarrow> task \<Rightarrow> error option outcome" where
  "task_result S streamSet Send replyChan env recvs events t =
     (case t of
        SendTask \<Rightarrow> fst (send Send replyChan [])
      | ReceiveTask \<Rightarrow> fst (receive_task env recvs)
      | DispatchTask \<Rightarrow> fst (dispatch S events streamSet))"

definition Proxy :: "'ss TargetStreamSet \<Rightarrow> 'ss \<Rightarrow> ('rep list \<Rightarrow> 'rep \<Rightarrow> error option)
    \<Rightarrow> 'rep chan \<Rightarrow> select_env list \<Rightarrow> ProxyRequest Recv_result list
    \<Rightarrow> dispatch_event list \<Rightarrow> task list \<Rightarrow> error option outcome" where
  "Proxy S streamSet Send replyChan env recvs events order =
     (case Go_all WithContext
             (map (task_result S streamSet Send replyChan env recvs events) order) of
        None \<Rightarrow> Blocked at_Wait
      | Some g \<Rightarrow>
          (case fst (group_Wait g) of
             None \<Rightarrow> Returned None
           | Some err \<Rightarrow> Returned (status_Error Internal (err_Error err))))"

section \<open>The generated client code (\<open>protoc-gen-go-grpcproxy/main.go\<close>, \<open>generate\<close>)\<close>

text \<open>
  The generator prints Go code for each method of a service; the definitions below are
  that printed code. \<open>'resp\<close> is the output message of the method and \<open>'any\<close> the
  \<open>anypb.Any\<close> payload of a raw reply.
\<close>

record 'resp ManyResponse =
  Target :: string
  Index :: int
  Resp :: 'resp
  Error :: "error option"

text \<open>
  Modelled from the spec: \<open>proxy.Ret\<close>, the raw tagged reply of the multiplexed
  connection, and the fields and methods of \<open>proxy.Conn\<close> that the printed code uses
  (package \<open>proxy/proxy\<close> is not among the sources).
\<close>

record 'any Ret =
  ret_Target :: string
  ret_Index :: int
  ret_Resp :: 'any
  ret_Error :: "error option"

record Conn =
  Targets :: "string list"
  Direct :: bool

text \<open>
  \<open>grpc.ClientStream\<close>, given by what its calls return: the result of \<open>CloseSend\<close>,
  and for the successive calls of \<open>RecvMsg\<close> the content of the message and the error.
  On a direct connection \<open>RecvMsg\<close> fills one output message (\<open>RecvMsg_msg\<close>); on a
  proxy connection it fills a slice of raw replies (\<open>RecvMsg_rets\<close>). A call with no
  result left blocks forever.
\<close>

record ('any, 'resp) ClientStream =
  CloseSend_result :: "error option"
  RecvMsg_msg :: "('resp \<times> error option) list"
  RecvMsg_rets :: "('any Ret list \<times> error option) list"

text \<open>The struct \<open>clientStruct + methodStruct\<close> (lines 160 to 164).\<close>

record ('any, 'resp) ClientProxy =
  cc :: Conn
  directDone :: bool
  stream :: "('any, 'resp) ClientStream"

text \<open>
  Lines 247 to 257: one raw reply made into a typed response. \<open>UnmarshalTo\<close> gives the
  content of the output message after \<open>r.Resp.UnmarshalTo(typedResp.Resp)\<close> and the
  error of the call; \<open>blank\<close> is the output message \<open>&Out{}\<close> before it.
\<close>

definition typedResp :: "('any \<Rightarrow> 'resp \<times> error option) \<Rightarrow> 'resp \<Rightarrow> 'any Ret
    \<Rightarrow> 'resp ManyResponse" where
  "typedResp UnmarshalTo blank r =
     (case ret_Error r of
        Some e \<Rightarrow> \<lparr>Target = ret_Target r, Index = ret_Index r, Resp = blank, Error = Some e\<rparr>
      | None \<Rightarrow>
          (case UnmarshalTo (ret_Resp r) of
             (m, Some err) \<Rightarrow>
               \<lparr>Target = ret_Target r, Index = ret_Index r, Resp = m,
                Error = Some (errorString (''can't decode any response - '' @ err_Error err
                        @ ''. Original Error - '' @ fmt_v (ret_Error r)))\<rparr>
           | (m, None) \<Rightarrow>
               \<lparr>Target = ret_Target r, Index = ret_Index r, Resp = m, Error = None\<rparr>))"

text \<open>
  Lines 201 to 220, printed into \<open>Recv\<close> and into \<open>CloseAndRecv\<close>: the branch of a
  direct connection. \<open>x.cc.Targets[0]\<close> panics when there is no target.
\<close>

definition recv_direct :: "('any, 'resp) ClientProxy
    \<Rightarrow> ('resp ManyResponse list \<times> error option) outcome \<times> ('any, 'resp) ClientProxy" where
  "recv_direct x =
     (if directDone x then (Returned ([], Some io_EOF), x)
      else case RecvMsg_msg (stream x) of
             [] \<Rightarrow> (Blocked at_RecvMsg, x)
           | (m, err) # rest \<Rightarrow>
               (let x' = x\<lparr>stream := (stream x)\<lparr>RecvMsg_msg := rest\<rparr>\<rparr> in
                case Targets (cc x) of
                  [] \<Rightarrow> (Panicked, x')
                | t # _ \<Rightarrow>
                    (Returned ([\<lparr>Target = t, Index = 0, Resp = m, Error = err\<rparr>], None),
                     if err \<noteq> None then x'\<lparr>directDone := True\<rparr> else x')))"

text \<open>
  \<open>Recv\<close> of a method that streams from the server (lines 194 to 221, 242 to 259 and
  263).
\<close>

definition Recv :: "('any \<Rightarrow> 'resp \<times> error option) \<Rightarrow> 'resp \<Rightarrow> ('any, 'resp) ClientProxy
    \<Rightarrow> ('resp ManyResponse list \<times> error option) outcome \<times> ('any, 'resp) ClientProxy" where
  "Recv UnmarshalTo blank x =
     (if Direct (cc x) then recv_direct x
      else case RecvMsg_rets (stream x) of
             [] \<Rightarrow> (Blocked at_RecvMsg, x)
           | (m, err) # rest \<Rightarrow>
               (let x' = x\<lparr>stream := (stream x)\<lparr>RecvMsg_rets := rest\<rparr>\<rparr> in
                case err of
                  Some e \<Rightarrow> (Returned ([], Some e), x')
                | None \<Rightarrow> (Returned (map (typedResp UnmarshalTo blank) m, None), x')))"

text \<open>
  The loop of \<open>CloseAndRecv\<close> (lines 229 to 261). \<open>eof\<close> is the map from the index of a
  target to a flag, as the list of its entries; the loop reads it and never writes it.
  The second argument is what the calls of \<open>RecvMsg\<close> still have to give, \<open>ret\<close> the
  responses collected so far.
\<close>

fun CloseAndRecv_loop :: "('any \<Rightarrow> 'resp \<times> error option) \<Rightarrow> 'resp \<Rightarrow> (nat \<times> bool) list
    \<Rightarrow> ('any Ret list \<times> error option) list \<Rightarrow> 'resp ManyResponse list
    \<Rightarrow> ('resp ManyResponse list \<times> error option) outcome \<times> ('any Ret list \<times> error option) list"
  where
  "CloseAndRecv_loop UnmarshalTo blank eof [] ret =
     (if list_all snd eof then (Returned (ret, None), [])
      else (Blocked at_RecvMsg, []))"
| "CloseAndRecv_loop UnmarshalTo blank eof ((m, err) # rest) ret =
     (if list_all snd eof then (Returned (ret, None), (m, err) # rest)
      else case err of
             Some e \<Rightarrow> (Returned ([], Some e), rest)
           | None \<Rightarrow>
               CloseAndRecv_loop UnmarshalTo blank eof rest
                 (ret @ map (typedResp UnmarshalTo blank) m))"

text \<open>
  \<open>CloseAndRecv\<close> of a method that streams from the client only (lines 178 to 181, 196
  to 264).
\<close>

definition CloseAndRecv :: "('any \<Rightarrow> 'resp \<times> error option) \<Rightarrow> 'resp \<Rightarrow> ('any, 'resp) ClientProxy
    \<Rightarrow> ('resp ManyResponse list \<times> error option) outcome \<times> ('any, 'resp) ClientProxy" where
  "CloseAndRecv UnmarshalTo blank x =
     (case CloseSend_result (stream x) of
        Some err \<Rightarrow> (Returned ([], Some err), x)
      | None \<Rightarrow>
          if Direct (cc x) then recv_direct x
          else
            (let eof = map (\<lambda>i. (i, False)) [0 ..< length (Targets (cc x))] in
             case CloseAndRecv_loop UnmarshalTo blank eof (RecvMsg_rets (stream x)) [] of
               (out, rest) \<Rightarrow> (out, x\<lparr>stream := (stream x)\<lparr>RecvMsg_rets := rest\<rparr>\<rparr>)))"

text \<open>
  The \<open>OneMany\<close> function of a unary method (lines 273 to 323). \<open>Invoke\<close> gives the
  content of \<open>out.Resp\<close> after \<open>conn.Invoke\<close> and its error; \<open>InvokeOneMany\<close> gives an
  error or the channel of raw replies. The channel the function returns is given by
  what its goroutine sends on it to a reader that reads until it is closed.
\<close>

definition OneMany :: "('inp \<Rightarrow> 'resp \<times> error option) \<Rightarrow> ('inp \<Rightarrow> error + 'any Ret chan)
    \<Rightarrow> ('any \<Rightarrow> 'resp \<times> error option) \<Rightarrow> 'resp \<Rightarrow> Conn \<Rightarrow> 'inp
    \<Rightarrow> error + 'resp ManyResponse chan" where
  "OneMany Invoke InvokeOneMany UnmarshalTo blank conn inp =
     (case Targets conn of
        [t] \<Rightarrow>
          (case Invoke inp of
             (m, err) \<Rightarrow> Inr (Chan [\<lparr>Target = t, Index = 0, Resp = m, Error = err\<rparr>] True))
      | _ \<Rightarrow>
          (case InvokeOneMany inp of
             Inl err \<Rightarrow> Inl err
           | Inr (Chan manyRet closed) \<Rightarrow>
               Inr (Chan (map (typedResp UnmarshalTo blank) manyRet) closed)))"

text \<open>
  A caller that calls \<open>Recv\<close> up to \<open>n\<close> times, one call after the other, and stops when
  a call does not return: the outcomes of its calls.
\<close>

fun Recv_calls :: "('any \<Rightarrow> 'resp \<times> error option) \<Rightarrow> 'resp \<Rightarrow> nat \<Rightarrow> ('any, 'resp) ClientProxy
    \<Rightarrow> ('resp ManyResponse list \<times> error option) outcome list" where
  "Recv_calls UnmarshalTo blank 0 x = []"
| "Recv_calls UnmarshalTo blank (Suc n) x =
     (case Recv UnmarshalTo blank x of
        (Returned v, x') \<Rightarrow> Returned v # Recv_calls UnmarshalTo blank n x'
      | (out, x') \<Rightarrow> [out])"


section \<open>The send pump forwards in order and stops at the first error\<close>

lemma send_from:
  "send Send (Chan msgs closed) sent = (out, calls) \<Longrightarrow>
     (\<exists>n\<le>length msgs. calls = sent @ take n msgs) \<and>
     (out = Returned None \<longleftrightarrow>
        closed \<and> (\<forall>k<length msgs. Send (sent @ take k msgs) (msgs ! k) = None)) \<and>
     (\<forall>k e. k < length msgs \<and> Send (sent @ take k msgs) (msgs ! k) = Some e \<and>
        (\<forall>j<k. Send (sent @ take j msgs) (msgs ! j) = None)
        \<longrightarrow> out = Returned (Some e) \<and> calls = sent @ take (Suc k) msgs) \<and>
     ((\<forall>k<length msgs. Send (sent @ take k msgs) (msgs ! k) = None) \<longrightarrow> calls = sent @ msgs)"
proof (induction msgs arbitrary: sent)
  case Nil
  then show ?case by (auto split: if_splits)
next
  case (Cons m ms)
  show ?case
  proof (cases "Send sent m")
    case (Some e)
    with Cons.prems have o: "out = Returned (Some e)" and c: "calls = sent @ [m]" by auto
    have n1: "\<not> (\<forall>k<length (m # ms). Send (sent @ take k (m # ms)) ((m # ms) ! k) = None)"
      using Some by (auto intro: exI[of _ 0])
    have n2: "\<exists>n\<le>length (m # ms). calls = sent @ take n (m # ms)"
      using c by (intro exI[of _ 1]) simp
    have n3: "\<forall>k e'. k < length (m # ms) \<and> Send (sent @ take k (m # ms)) ((m # ms) ! k) = Some e' \<and>
        (\<forall>j<k. Send (sent @ take j (m # ms)) ((m # ms) ! j) = None)
        \<longrightarrow> out = Returned (Some e') \<and> calls = sent @ take (Suc k) (m # ms)"
    proof (intro allI impI)
      fix k e'
      assume a: "k < length (m # ms) \<and> Send (sent @ take k (m # ms)) ((m # ms) ! k) = Some e' \<and>
        (\<forall>j<k. Send (sent @ take j (m # ms)) ((m # ms) ! j) = None)"
      have "k = 0"
      proof (rule ccontr)
        assume "k \<noteq> 0"
        then have "0 < k" by simp
        with a have "Send (sent @ take 0 (m # ms)) ((m # ms) ! 0) = None" by blast
        with Some show False by simp
      qed
      with a Some o c show "out = Returned (Some e') \<and> calls = sent @ take (Suc k) (m # ms)"
        by simp
    qed
    from n1 n2 n3 o show ?thesis by blast
  next
    case None
    with Cons.prems have r: "send Send (Chan ms closed) (sent @ [m]) = (out, calls)" by simp
    note ih = Cons.IH[OF r]
    have a1: "\<exists>n\<le>length (m # ms). calls = sent @ take n (m # ms)"
    proof -
      from ih obtain n where "n \<le> length ms" "calls = (sent @ [m]) @ take n ms" by blast
      then show ?thesis by (intro exI[of _ "Suc n"]) simp
    qed
    have a2: "(out = Returned None) =
        (closed \<and> (\<forall>k<length (m # ms). Send (sent @ take k (m # ms)) ((m # ms) ! k) = None))"
      using ih None by (simp add: All_less_Suc2)
    have a4: "(\<forall>k<length (m # ms). Send (sent @ take k (m # ms)) ((m # ms) ! k) = None)
        \<longrightarrow> calls = sent @ m # ms"
      using ih None by (simp add: All_less_Suc2)
    have a3: "\<forall>k e. k < length (m # ms) \<and> Send (sent @ take k (m # ms)) ((m # ms) ! k) = Some e \<and>
        (\<forall>j<k. Send (sent @ take j (m # ms)) ((m # ms) ! j) = None)
        \<longrightarrow> out = Returned (Some e) \<and> calls = sent @ take (Suc k) (m # ms)"
    proof (intro allI impI)
      fix k e
      assume a: "k < length (m # ms) \<and> Send (sent @ take k (m # ms)) ((m # ms) ! k) = Some e \<and>
        (\<forall>j<k. Send (sent @ take j (m # ms)) ((m # ms) ! j) = None)"
      with None obtain k' where k: "k = Suc k'" by (cases k) auto
      from a k have 1: "k' < length ms" "Send ((sent @ [m]) @ take k' ms) (ms ! k') = Some e"
        by auto
      have 2: "\<forall>j<k'. Send ((sent @ [m]) @ take j ms) (ms ! j) = None"
      proof (intro allI impI)
        fix j assume "j < k'"
        then have "Suc j < k" using k by simp
        with a have "Send (sent @ take (Suc j) (m # ms)) ((m # ms) ! Suc j) = None" by blast
        then show "Send ((sent @ [m]) @ take j ms) (ms ! j) = None" by simp
      qed
      from ih 1 2 have "out = Returned (Some e) \<and> calls = (sent @ [m]) @ take (Suc k') ms"
        by blast
      then show "out = Returned (Some e) \<and> calls = sent @ take (Suc k) (m # ms)"
        using k by simp
    qed
    from a1 a2 a3 a4 show ?thesis by simp
  qed
qed

text \<open>
  Claim C9. Let the reply channel deliver the frames \<open>msgs\<close> and then be closed or not,
  and let \<open>calls\<close> be the frames the pump hands to \<open>stream.Send\<close>. The calls are an
  initial part of \<open>msgs\<close>, one frame per call, in the order of the channel. The pump
  returns nil exactly when the channel is closed and every \<open>Send\<close> succeeded. When the
  \<open>k\<close>-th \<open>Send\<close> is the first that fails, the pump returns the error of that call and
  has made no call after it. When no \<open>Send\<close> fails, every frame was handed over.
\<close>

theorem send_pump:
  "send Send (Chan msgs closed) [] = (out, calls) \<Longrightarrow>
     prefix calls msgs \<and>
     (out = Returned None \<longleftrightarrow>
        closed \<and> (\<forall>k<length msgs. Send (take k msgs) (msgs ! k) = None)) \<and>
     (\<forall>k e. k < length msgs \<and> Send (take k msgs) (msgs ! k) = Some e \<and>
        (\<forall>j<k. Send (take j msgs) (msgs ! j) = None)
        \<longrightarrow> out = Returned (Some e) \<and> calls = take (Suc k) msgs) \<and>
     ((\<forall>k<length msgs. Send (take k msgs) (msgs ! k) = None) \<longrightarrow> calls = msgs)"
proof -
  assume run: "send Send (Chan msgs closed) [] = (out, calls)"
  note g = send_from[OF run]
  from g obtain n where "calls = take n msgs" by auto
  then have "prefix calls msgs" by (simp add: take_is_prefix)
  with g show ?thesis by simp
qed

theorem send_pump_witness:
  "send (\<lambda>sent m. if m = (2::nat) then Some io_EOF else None) (Chan [1, 2, 3] True) []
     = (Returned (Some io_EOF), [1, 2]) \<and>
   prefix [1, 2] [1, 2, 3::nat]"
proof -
  have run: "send (\<lambda>sent m. if m = (2::nat) then Some io_EOF else None) (Chan [1, 2, 3] True) []
     = (Returned (Some io_EOF), [1, 2])" by simp
  from send_pump[OF run] have "prefix [1, 2] [1, 2, 3::nat]" by blast
  with run show ?thesis by simp
qed

section \<open>The receive pump\<close>

lemma select_waiting:
  "\<forall>w\<in>set waiting. \<not> chan_ready w \<and> ctx_Err w = None \<Longrightarrow>
     select (waiting @ env) = select env"
proof (induction waiting)
  case Nil
  show ?case by simp
next
  case (Cons a waiting)
  from Cons.prems have a: "\<not> chan_ready a" "ctx_Err a = None" by simp_all
  from Cons.prems have w: "\<forall>w\<in>set waiting. \<not> chan_ready w \<and> ctx_Err w = None" by simp
  have "select ((a # waiting) @ env) = select (waiting @ env)"
    using a by simp
  also have "\<dots> = select env" by (rule Cons.IH[OF w])
  finally show ?case .
qed

lemma select_cancelled:
  "\<forall>w\<in>set waiting. \<not> chan_ready w \<and> ctx_Err w = None \<Longrightarrow> \<not> chan_ready s
    \<Longrightarrow> ctx_Err s = Some e \<Longrightarrow> select (waiting @ s # later) = Some (DoneArm e, later)"
  by (simp add: select_waiting)

lemma receive_forward:
  "selects_send (length fs) env = Some env' \<Longrightarrow>
     receive env (map Recv_msg fs @ rest) fwd = receive env' rest (fwd @ fs)"
proof (induction fs arbitrary: env fwd)
  case Nil
  then show ?case by simp
next
  case (Cons f fs)
  from Cons.prems obtain env1 where s: "select env = Some (SendArm, env1)"
    and r: "selects_send (length fs) env1 = Some env'"
    by (simp split: option.splits select_arm.splits prod.splits)
  have "receive env (map Recv_msg (f # fs) @ rest) fwd
          = receive env1 (map Recv_msg fs @ rest) (fwd @ [f])"
    using s by simp
  also have "\<dots> = receive env' rest ((fwd @ [f]) @ fs)" by (rule Cons.IH[OF r])
  finally show ?case by simp
qed

lemma receive_prefix:
  "\<exists>fs. snd (receive env recvs fwd) = fwd @ fs \<and> prefix (map Recv_msg fs) recvs"
proof (induction env recvs fwd rule: receive.induct)
  case (1 env requestChan)
  then show ?case by simp
next
  case (2 env err recvs requestChan)
  then show ?case by simp
next
  case (3 env req recvs requestChan)
  show ?case
  proof (cases "select env")
    case None
    then show ?thesis by simp
  next
    case (Some p)
    obtain arm env' where p: "p = (arm, env')" by (cases p)
    show ?thesis
    proof (cases arm)
      case SendArm
      have s: "select env = Some (SendArm, env')" using Some p SendArm by simp
      from 3[OF s refl] obtain fs where
        f: "snd (receive env' recvs (requestChan @ [req])) = (requestChan @ [req]) @ fs"
        "prefix (map Recv_msg fs) recvs" by blast
      have "snd (receive env (Recv_msg req # recvs) requestChan) = requestChan @ (req # fs)"
        using s f(1) by simp
      moreover have "prefix (map Recv_msg (req # fs)) (Recv_msg req # recvs)"
        using f(2) by simp
      ultimately show ?thesis by blast
    next
      case (DoneArm e)
      have s: "select env = Some (DoneArm e, env')" using Some p DoneArm by simp
      have "snd (receive env (Recv_msg req # recvs) requestChan) = requestChan @ []"
        using s by simp
      moreover have "prefix (map Recv_msg []) (Recv_msg req # recvs)" by simp
      ultimately show ?thesis by blast
    qed
  qed
qed

text \<open>
  Claim C7. In every run the frames sent on the request channel are, in order, the
  first results of \<open>stream.Recv()\<close>: nothing is dropped in between, doubled or
  reordered. When the frames \<open>frames\<close> have arrived and each found the dispatcher
  receiving, then
  \<^item> on \<open>io.EOF\<close> the pump returns nil, all of \<open>frames\<close> were forwarded, and the request
    channel is closed;
  \<^item> on any other error of \<open>Recv\<close> it returns that error unchanged;
  \<^item> when a further frame has arrived and, while the pump waits to forward it (the
    dispatcher is not receiving), the context is cancelled, it returns the error of the
    context and the frame is not forwarded.
\<close>

theorem receive_pump:
  "prefix (map Recv_msg (snd (receive env0 recvs0 []))) recvs0 \<and>
   (selects_send (length frames) env = Some env' \<longrightarrow>
      receive_task env (map Recv_msg frames @ Recv_err io_EOF # rest)
        = (Returned None, Chan frames True) \<and>
      (err \<noteq> io_EOF \<longrightarrow>
         receive_task env (map Recv_msg frames @ Recv_err err # rest)
           = (Returned (Some err), Chan frames True)) \<and>
      ((\<forall>w\<in>set waiting. \<not> chan_ready w \<and> ctx_Err w = None) \<and> \<not> chan_ready s
         \<and> ctx_Err s = Some e \<and> env' = waiting @ s # later \<longrightarrow>
         receive_task env (map Recv_msg frames @ Recv_msg req # rest)
           = (Returned (Some e), Chan frames True)))"
proof (intro conjI impI)
  from receive_prefix[of env0 recvs0 "[]"]
  show "prefix (map Recv_msg (snd (receive env0 recvs0 []))) recvs0" by auto
next
  assume f: "selects_send (length frames) env = Some env'"
  show "receive_task env (map Recv_msg frames @ Recv_err io_EOF # rest)
          = (Returned None, Chan frames True)"
    by (simp add: receive_task_def receive_forward[OF f])
next
  assume f: "selects_send (length frames) env = Some env'" and "err \<noteq> io_EOF"
  then show "receive_task env (map Recv_msg frames @ Recv_err err # rest)
          = (Returned (Some err), Chan frames True)"
    by (simp add: receive_task_def receive_forward[OF f])
next
  assume f: "selects_send (length frames) env = Some env'"
    and c: "(\<forall>w\<in>set waiting. \<not> chan_ready w \<and> ctx_Err w = None) \<and> \<not> chan_ready s
         \<and> ctx_Err s = Some e \<and> env' = waiting @ s # later"
  from c have "select env' = Some (DoneArm e, later)"
    using select_cancelled[of waiting s e later] by blast
  then show "receive_task env (map Recv_msg frames @ Recv_msg req # rest)
          = (Returned (Some e), Chan frames True)"
    by (simp add: receive_task_def receive_forward[OF f])
qed

theorem receive_pump_witness:
  "receive_task
     [\<lparr>chan_ready = True, ctx_Err = None, pick_Done = False\<rparr>,
      \<lparr>chan_ready = False, ctx_Err = None, pick_Done = False\<rparr>,
      \<lparr>chan_ready = False, ctx_Err = Some ctx_Canceled, pick_Done = False\<rparr>]
     [Recv_msg (1::nat), Recv_msg 2]
   = (Returned (Some ctx_Canceled), Chan [1] True)"
proof -
  have f: "selects_send (length [1::nat])
      [\<lparr>chan_ready = True, ctx_Err = None, pick_Done = False\<rparr>,
       \<lparr>chan_ready = False, ctx_Err = None, pick_Done = False\<rparr>,
       \<lparr>chan_ready = False, ctx_Err = Some ctx_Canceled, pick_Done = False\<rparr>]
    = Some [\<lparr>chan_ready = False, ctx_Err = None, pick_Done = False\<rparr>,
       \<lparr>chan_ready = False, ctx_Err = Some ctx_Canceled, pick_Done = False\<rparr>]"
    by simp
  show ?thesis
    using f receive_pump[of "[]" "[]" "[1::nat]"
        "[\<lparr>chan_ready = True, ctx_Err = None, pick_Done = False\<rparr>,
          \<lparr>chan_ready = False, ctx_Err = None, pick_Done = False\<rparr>,
          \<lparr>chan_ready = False, ctx_Err = Some ctx_Canceled, pick_Done = False\<rparr>]"
        "[\<lparr>chan_ready = False, ctx_Err = None, pick_Done = False\<rparr>,
          \<lparr>chan_ready = False, ctx_Err = Some ctx_Canceled, pick_Done = False\<rparr>]"
        "[]" io_EOF
        "[\<lparr>chan_ready = False, ctx_Err = None, pick_Done = False\<rparr>]"
        "\<lparr>chan_ready = False, ctx_Err = Some ctx_Canceled, pick_Done = False\<rparr>"
        ctx_Canceled "[]" 2]
    by simp
qed


section \<open>The dispatcher\<close>

lemma dispatch_continue:
  "dispatch S pre streamSet = (Blocked at_select, s1) \<Longrightarrow>
     dispatch S (pre @ later) streamSet = dispatch S later s1"
proof (induction S pre streamSet rule: dispatch.induct)
  case (1 S streamSet)
  then show ?case by simp
next
  case (2 S e events streamSet)
  then show ?case by simp
next
  case (3 S closedStream events streamSet)
  then show ?case by simp
next
  case (4 S ctxErr events streamSet)
  then show ?case by (simp split: option.splits)
next
  case (5 S start events streamSet)
  then show ?case by simp
next
  case (6 S d events streamSet)
  then show ?case by (cases "set_Send S streamSet d") (simp split: option.splits)
next
  case (7 S c events streamSet)
  then show ?case by (cases "set_Cancel S streamSet c") (simp split: option.splits)
next
  case (8 S c events streamSet)
  then show ?case by (cases "set_ClientClose S streamSet c") (simp split: option.splits)
next
  case (9 S events streamSet)
  then show ?case by (simp add: status_Error_def)
qed

lemma Go_return_inv: "g_errOnce g \<longrightarrow> g_cancelled g \<Longrightarrow>
    g_errOnce (Go_return g r) \<longrightarrow> g_cancelled (Go_return g r)"
  by (simp add: Go_return_def split: option.splits)

lemma Go_all_inv:
  "Go_all g outs = Some g' \<Longrightarrow> g_errOnce g \<longrightarrow> g_cancelled g \<Longrightarrow> g_errOnce g' \<longrightarrow> g_cancelled g'"
proof (induction g outs rule: Go_all.induct)
  case (1 g)
  then show ?case by simp
next
  case (2 g r rest)
  from "2.prems"(1) have a: "Go_all (Go_return g r) rest = Some g'" by simp
  show ?case by (rule "2.IH"[OF a Go_return_inv[OF "2.prems"(2)]])
next
  case (3 g p rest)
  then show ?case by simp
next
  case (4 g rest)
  then show ?case by simp
qed

lemma error_cancels_scope:
  "Go_all WithContext earlier = Some g \<Longrightarrow> g_cancelled (Go_return g (Some e))"
proof -
  assume a: "Go_all WithContext earlier = Some g"
  have "g_errOnce WithContext \<longrightarrow> g_cancelled WithContext" by (simp add: WithContext_def)
  from Go_all_inv[OF a this] show ?thesis by (simp add: Go_return_def)
qed

text \<open>
  Claim C2. Let the dispatcher have handled the events \<open>pre\<close> and wait in its
  \<open>select\<close> with the stream set in state \<open>s1\<close>, and let the frame \<open>req\<close> arrive.
  Handling the frame either leaves the dispatcher in its loop or makes \<open>dispatch\<close>
  return a non-nil error, and it returns precisely when the frame has none of the four
  types or when \<open>Send\<close>, \<open>Cancel\<close> or \<open>ClientClose\<close> of the stream set returns a
  non-nil error; in the latter case \<open>dispatch\<close> returns exactly that error. When it
  returns, no later event is handled, and the goroutine started with \<open>Go\<close> cancels the
  context of the session, whatever the other tasks have returned before.
\<close>

theorem dispatch_protocol_error:
  assumes pre: "dispatch S pre streamSet = (Blocked at_select, s1)"
      and run: "dispatch S (pre @ [requestChan_recv req]) streamSet = (out, s2)"
  shows "(out = Blocked at_select \<or> (\<exists>e. out = Returned (Some e))) \<and>
     ((\<exists>e. out = Returned (Some e)) \<longleftrightarrow>
        ((\<forall>x. req \<noteq> ProxyRequest_StartStream x) \<and> (\<forall>x. req \<noteq> ProxyRequest_StreamData x) \<and>
         (\<forall>x. req \<noteq> ProxyRequest_ClientCancel x) \<and> (\<forall>x. req \<noteq> ProxyRequest_ClientClose x)) \<or>
        (\<exists>d e. req = ProxyRequest_StreamData d \<and> fst (set_Send S s1 d) = Some e) \<or>
        (\<exists>c e. req = ProxyRequest_ClientCancel c \<and> fst (set_Cancel S s1 c) = Some e) \<or>
        (\<exists>c e. req = ProxyRequest_ClientClose c \<and> fst (set_ClientClose S s1 c) = Some e)) \<and>
     (\<forall>d e. req = ProxyRequest_StreamData d \<and> fst (set_Send S s1 d) = Some e
        \<longrightarrow> out = Returned (Some e)) \<and>
     (\<forall>c e. req = ProxyRequest_ClientCancel c \<and> fst (set_Cancel S s1 c) = Some e
        \<longrightarrow> out = Returned (Some e)) \<and>
     (\<forall>c e. req = ProxyRequest_ClientClose c \<and> fst (set_ClientClose S s1 c) = Some e
        \<longrightarrow> out = Returned (Some e)) \<and>
     (\<forall>e. out = Returned (Some e) \<longrightarrow>
        (\<forall>later. dispatch S (pre @ requestChan_recv req # later) streamSet = (out, s2)) \<and>
        (\<forall>earlier g. Go_all WithContext earlier = Some g
           \<longrightarrow> g_cancelled (Go_return g (Some e))))"
proof -
  have step: "\<And>later. dispatch S (pre @ requestChan_recv req # later) streamSet
      = dispatch S (requestChan_recv req # later) s1"
    by (rule dispatch_continue[OF pre])
  from run step[of "[]"] have one: "dispatch S [requestChan_recv req] s1 = (out, s2)" by simp
  have cancel: "\<And>e earlier g. Go_all WithContext earlier = Some g
      \<Longrightarrow> g_cancelled (Go_return g (Some e))"
    by (rule error_cancels_scope)
  show ?thesis
  proof (cases req)
    case (ProxyRequest_StartStream start)
    with one have "out = Blocked at_select" by simp
    then show ?thesis using ProxyRequest_StartStream by simp
  next
    case (ProxyRequest_StreamData d)
    obtain r s' where c: "set_Send S s1 d = (r, s')" by (cases "set_Send S s1 d")
    show ?thesis
    proof (cases r)
      case None
      with one c ProxyRequest_StreamData have "out = Blocked at_select" by simp
      then show ?thesis using ProxyRequest_StreamData c None by simp
    next
      case (Some e)
      with one c ProxyRequest_StreamData have o: "out = Returned (Some e)" "s2 = s'" by simp_all
      have "\<And>later. dispatch S (pre @ requestChan_recv req # later) streamSet = (out, s2)"
        using step c Some o ProxyRequest_StreamData by simp
      then show ?thesis using ProxyRequest_StreamData c Some o cancel by simp
    qed
  next
    case (ProxyRequest_ClientCancel d)
    obtain r s' where c: "set_Cancel S s1 d = (r, s')" by (cases "set_Cancel S s1 d")
    show ?thesis
    proof (cases r)
      case None
      with one c ProxyRequest_ClientCancel have "out = Blocked at_select" by simp
      then show ?thesis using ProxyRequest_ClientCancel c None by simp
    next
      case (Some e)
      with one c ProxyRequest_ClientCancel have o: "out = Returned (Some e)" "s2 = s'"
        by simp_all
      have "\<And>later. dispatch S (pre @ requestChan_recv req # later) streamSet = (out, s2)"
        using step c Some o ProxyRequest_ClientCancel by simp
      then show ?thesis using ProxyRequest_ClientCancel c Some o cancel by simp
    qed
  next
    case (ProxyRequest_ClientClose d)
    obtain r s' where c: "set_ClientClose S s1 d = (r, s')"
      by (cases "set_ClientClose S s1 d")
    show ?thesis
    proof (cases r)
      case None
      with one c ProxyRequest_ClientClose have "out = Blocked at_select" by simp
      then show ?thesis using ProxyRequest_ClientClose c None by simp
    next
      case (Some e)
      with one c ProxyRequest_ClientClose have o: "out = Returned (Some e)" "s2 = s'"
        by simp_all
      have "\<And>later. dispatch S (pre @ requestChan_recv req # later) streamSet = (out, s2)"
        using step c Some o ProxyRequest_ClientClose by simp
      then show ?thesis using ProxyRequest_ClientClose c Some o cancel by simp
    qed
  next
    case Request_nil
    with one have o: "out = Returned (Some (status_error Internal ''unhandled request type <nil>''))"
      "s2 = s1" by (simp_all add: status_Error_def)
    have "\<And>later. dispatch S (pre @ requestChan_recv req # later) streamSet = (out, s2)"
      using step o Request_nil by (simp add: status_Error_def)
    then show ?thesis using Request_nil o cancel by simp
  qed
qed

theorem dispatch_protocol_error_witness:
  "dispatch recording_set
     [requestChan_recv (ProxyRequest_StartStream \<lparr>nonce = 1, target = ''a'', method_name = ''/S/M''\<rparr>),
      requestChan_recv (ProxyRequest_StreamData \<lparr>data_stream_ids = [0], payload = ''x''\<rparr>),
      doneChan_recv 5] []
    = (Returned (Some (status_error InvalidArgument ''no such stream'')), [''Add'', ''Send'']) \<and>
   g_cancelled (Go_return WithContext (Some (status_error InvalidArgument ''no such stream'')))"
proof -
  have pre: "dispatch recording_set
     [requestChan_recv (ProxyRequest_StartStream \<lparr>nonce = 1, target = ''a'', method_name = ''/S/M''\<rparr>)] []
     = (Blocked at_select, [''Add''])" by (simp add: recording_set_def)
  have run: "dispatch recording_set
     ([requestChan_recv (ProxyRequest_StartStream \<lparr>nonce = 1, target = ''a'', method_name = ''/S/M''\<rparr>)]
      @ [requestChan_recv (ProxyRequest_StreamData \<lparr>data_stream_ids = [0], payload = ''x''\<rparr>)]) []
    = (Returned (Some (status_error InvalidArgument ''no such stream'')), [''Add'', ''Send''])"
    by (simp add: recording_set_def)
  have g: "Go_all WithContext [] = Some WithContext" by simp
  note T = dispatch_protocol_error[OF pre run]
  from T have "\<forall>earlier g. Go_all WithContext earlier = Some g
      \<longrightarrow> g_cancelled (Go_return g (Some (status_error InvalidArgument ''no such stream'')))"
    by blast
  with g have c: "g_cancelled (Go_return WithContext
      (Some (status_error InvalidArgument ''no such stream'')))" by blast
  from T have "\<forall>later. dispatch recording_set
     ([requestChan_recv (ProxyRequest_StartStream \<lparr>nonce = 1, target = ''a'', method_name = ''/S/M''\<rparr>)]
      @ requestChan_recv (ProxyRequest_StreamData \<lparr>data_stream_ids = [0], payload = ''x''\<rparr>) # later) []
    = (Returned (Some (status_error InvalidArgument ''no such stream'')), [''Add'', ''Send''])"
    by blast
  then have "dispatch recording_set
     ([requestChan_recv (ProxyRequest_StartStream \<lparr>nonce = 1, target = ''a'', method_name = ''/S/M''\<rparr>)]
      @ requestChan_recv (ProxyRequest_StreamData \<lparr>data_stream_ids = [0], payload = ''x''\<rparr>)
        # [doneChan_recv 5]) []
    = (Returned (Some (status_error InvalidArgument ''no such stream'')), [''Add'', ''Send''])"
    by (rule spec)
  then have "dispatch recording_set
     [requestChan_recv (ProxyRequest_StartStream \<lparr>nonce = 1, target = ''a'', method_name = ''/S/M''\<rparr>),
      requestChan_recv (ProxyRequest_StreamData \<lparr>data_stream_ids = [0], payload = ''x''\<rparr>),
      doneChan_recv 5] []
    = (Returned (Some (status_error InvalidArgument ''no such stream'')), [''Add'', ''Send''])"
    by (simp only: append.simps)
  then show ?thesis using c by (rule conjI)
qed

text \<open>
  Claim C8. Let the dispatcher wait in its \<open>select\<close> with the stream set in state
  \<open>s1\<close> and observe the request channel closed. The stream set then goes through
  \<open>ClientCloseAll\<close> and after it \<open>Wait\<close>, and through no other call; once \<open>Wait\<close> has
  returned, \<open>dispatch\<close> returns, whatever events would come later. It returns what
  \<open>ctx.Err()\<close> gives, which is nil when the context has not been cancelled.
\<close>

theorem dispatch_request_closed:
  assumes pre: "dispatch S pre streamSet = (Blocked at_select, s1)"
      and wait: "set_Wait S (set_ClientCloseAll S s1) = Some s2"
  shows "dispatch S (pre @ requestChan_closed ctxErr # later) streamSet = (Returned ctxErr, s2) \<and>
         dispatch S (pre @ requestChan_closed None # later) streamSet = (Returned None, s2)"
  using wait by (simp add: dispatch_continue[OF pre])

theorem dispatch_request_closed_witness:
  "dispatch recording_set
     [requestChan_recv (ProxyRequest_StartStream \<lparr>nonce = 1, target = ''a'', method_name = ''/S/M''\<rparr>),
      requestChan_closed None,
      requestChan_recv (ProxyRequest_StreamData \<lparr>data_stream_ids = [1], payload = ''x''\<rparr>)] []
    = (Returned None, [''Add'', ''ClientCloseAll'', ''Wait''])"
proof -
  have pre: "dispatch recording_set
     [requestChan_recv (ProxyRequest_StartStream \<lparr>nonce = 1, target = ''a'', method_name = ''/S/M''\<rparr>)] []
     = (Blocked at_select, [''Add''])" by (simp add: recording_set_def)
  have wait: "set_Wait recording_set (set_ClientCloseAll recording_set [''Add''])
     = Some [''Add'', ''ClientCloseAll'', ''Wait'']" by (simp add: recording_set_def)
  from dispatch_request_closed[OF pre wait, of None
      "[requestChan_recv (ProxyRequest_StreamData \<lparr>data_stream_ids = [1], payload = ''x''\<rparr>)]"]
  show ?thesis by simp
qed

text \<open>
  Claim C10. Handling a \<open>StartStream\<close> frame never makes \<open>dispatch\<close> return: the
  dispatcher goes on with the next event, with the stream set as \<open>Add\<close> left it, and
  what \<open>Add\<close> returned (an error as well as nil) is not looked at.
\<close>

theorem dispatch_StartStream:
  assumes pre: "dispatch S pre streamSet = (Blocked at_select, s1)"
  shows "dispatch S (pre @ requestChan_recv (ProxyRequest_StartStream start) # later) streamSet
           = dispatch S later (snd (set_Add S s1 start)) \<and>
         dispatch S (pre @ [requestChan_recv (ProxyRequest_StartStream start)]) streamSet
           = (Blocked at_select, snd (set_Add S s1 start))"
  by (simp add: dispatch_continue[OF pre])

theorem dispatch_StartStream_witness:
  "fst (set_Add recording_set [''Add'']
          \<lparr>nonce = 2, target = ''b'', method_name = ''/S/Unknown''\<rparr>)
     = Some (status_error Unimplemented ''unknown method'') \<and>
   dispatch recording_set
     [requestChan_recv (ProxyRequest_StartStream \<lparr>nonce = 1, target = ''a'', method_name = ''/S/M''\<rparr>),
      requestChan_recv (ProxyRequest_StartStream \<lparr>nonce = 2, target = ''b'', method_name = ''/S/Unknown''\<rparr>)] []
    = (Blocked at_select, [''Add'', ''Add''])"
proof -
  have pre: "dispatch recording_set
     [requestChan_recv (ProxyRequest_StartStream \<lparr>nonce = 1, target = ''a'', method_name = ''/S/M''\<rparr>)] []
     = (Blocked at_select, [''Add''])" by (simp add: recording_set_def)
  from dispatch_StartStream[OF pre, of "\<lparr>nonce = 2, target = ''b'', method_name = ''/S/Unknown''\<rparr>"]
  show ?thesis by (simp add: recording_set_def)
qed

section \<open>The status of the session\<close>

text \<open>
  None of the three tasks panics, so that a task either returns or never returns.
\<close>

lemma send_no_panic: "fst (send Send replyChan sent) \<noteq> Panicked"
  by (induction Send replyChan sent rule: send.induct) (simp_all split: option.splits)

lemma receive_no_panic: "fst (receive env recvs requestChan) \<noteq> Panicked"
  by (induction env recvs requestChan rule: receive.induct)
     (simp_all split: option.splits select_arm.splits prod.splits)

lemma dispatch_no_panic: "fst (dispatch S events streamSet) \<noteq> Panicked"
  by (induction S events streamSet rule: dispatch.induct)
     (simp_all split: option.splits prod.splits)

lemma tasks_no_panic:
  "task_result S streamSet Send replyChan env recvs events t \<noteq> Panicked"
proof (cases t)
  case SendTask
  then show ?thesis by (simp add: task_result_def send_no_panic)
next
  case ReceiveTask
  have "fst (receive_task env recvs) = fst (receive env recvs [])"
    by (simp add: receive_task_def split: prod.splits outcome.splits)
  then show ?thesis using ReceiveTask receive_no_panic[of env recvs "[]"]
    by (simp add: task_result_def)
next
  case DispatchTask
  then show ?thesis by (simp add: task_result_def dispatch_no_panic)
qed

lemma Go_all_Some_iff:
  "(\<exists>g'. Go_all g outs = Some g') \<longleftrightarrow> (\<forall>out\<in>set outs. \<exists>r. out = Returned r)"
proof (induction g outs rule: Go_all.induct)
  case (1 g)
  show ?case by simp
next
  case (2 g r rest)
  have "(\<exists>g'. Go_all g (Returned r # rest) = Some g') = (\<exists>g'. Go_all (Go_return g r) rest = Some g')"
    by simp
  also have "\<dots> = (\<forall>out\<in>set rest. \<exists>r. out = Returned r)" by (rule "2.IH")
  finally show ?case by simp
next
  case (3 g p rest)
  show ?case by simp
next
  case (4 g rest)
  show ?case by simp
qed

lemma Go_all_once:
  "Go_all g outs = Some g' \<Longrightarrow> g_errOnce g \<Longrightarrow> g_err g' = g_err g"
proof (induction g outs rule: Go_all.induct)
  case (1 g)
  then show ?case by simp
next
  case (2 g r rest)
  from "2.prems"(2) have same: "Go_return g r = g" by (simp add: Go_return_def split: option.splits)
  from "2.prems"(1) same have a: "Go_all (Go_return g r) rest = Some g'" by simp
  have b: "g_errOnce (Go_return g r)" using same "2.prems"(2) by simp
  from "2.IH"[OF a b] same show ?case by simp
next
  case (3 g p rest)
  then show ?case by simp
next
  case (4 g rest)
  then show ?case by simp
qed

lemma Go_all_first:
  "Go_all g outs = Some g' \<Longrightarrow> \<not> g_errOnce g \<Longrightarrow> k < length outs
    \<Longrightarrow> outs ! k = Returned (Some e) \<Longrightarrow> \<forall>j<k. outs ! j = Returned None
    \<Longrightarrow> g_err g' = Some e"
proof (induction g outs arbitrary: k rule: Go_all.induct)
  case (1 g)
  then show ?case by simp
next
  case (2 g r rest)
  from "2.prems"(1) have a: "Go_all (Go_return g r) rest = Some g'" by simp
  show ?case
  proof (cases k)
    case 0
    with "2.prems"(4) have r: "r = Some e" by simp
    have once: "g_errOnce (Go_return g r)" and er: "g_err (Go_return g r) = Some e"
      using r "2.prems"(2) by (simp_all add: Go_return_def)
    from Go_all_once[OF a once] er show ?thesis by simp
  next
    case (Suc k')
    from "2.prems"(5) Suc have "(Returned r # rest) ! 0 = Returned None" by blast
    then have r: "r = None" by simp
    then have same: "Go_return g r = g" by (simp add: Go_return_def)
    have b: "\<not> g_errOnce (Go_return g r)" using same "2.prems"(2) by simp
    have c: "k' < length rest" using "2.prems"(3) Suc by simp
    have d: "rest ! k' = Returned (Some e)" using "2.prems"(4) Suc by simp
    have f: "\<forall>j<k'. rest ! j = Returned None"
    proof (intro allI impI)
      fix j assume "j < k'"
      then have "Suc j < k" using Suc by simp
      with "2.prems"(5) have "(Returned r # rest) ! Suc j = Returned None" by blast
      then show "rest ! j = Returned None" by simp
    qed
    show ?thesis by (rule "2.IH"[OF a b c d f])
  qed
next
  case (3 g p rest)
  then show ?case by simp
next
  case (4 g rest)
  then show ?case by simp
qed

lemma Go_all_nil:
  "Go_all g outs = Some g' \<Longrightarrow> \<not> g_errOnce g \<Longrightarrow> g_err g = None
    \<Longrightarrow> (g_err g' = None \<longleftrightarrow> (\<forall>out\<in>set outs. out = Returned None))"
proof (induction g outs rule: Go_all.induct)
  case (1 g)
  then show ?case by simp
next
  case (2 g r rest)
  from "2.prems"(1) have a: "Go_all (Go_return g r) rest = Some g'" by simp
  show ?case
  proof (cases r)
    case None
    then have same: "Go_return g r = g" by (simp add: Go_return_def)
    have b: "\<not> g_errOnce (Go_return g r)" "g_err (Go_return g r) = None"
      using same "2.prems" by simp_all
    from "2.IH"[OF a b] None show ?thesis by simp
  next
    case (Some e)
    have once: "g_errOnce (Go_return g r)" and er: "g_err (Go_return g r) = Some e"
      using Some "2.prems"(2) by (simp_all add: Go_return_def)
    from Go_all_once[OF a once] er have "g_err g' = Some e" by simp
    then show ?thesis using Some by simp
  qed
next
  case (3 g p rest)
  then show ?case by simp
next
  case (4 g rest)
  then show ?case by simp
qed

lemma all_tasks: "set ending = {SendTask, ReceiveTask, DispatchTask} \<Longrightarrow>
   (\<forall>out\<in>set (map f ending). P out) \<longleftrightarrow> (\<forall>t. P (f t))"
proof -
  assume a: "set ending = {SendTask, ReceiveTask, DispatchTask}"
  have "\<And>t. t \<in> set ending" using a by (case_tac t) simp_all
  then show ?thesis by auto
qed

text \<open>
  Claim C1. Let the three tasks end in the order \<open>ending\<close>. \<open>Proxy\<close> returns nil
  exactly when each of the three tasks returns nil. When all three return and the first
  to return a non-nil error returns \<open>e\<close>, \<open>Proxy\<close> returns the status error with
  code \<open>Internal\<close> and message \<open>e.Error()\<close>. When a task never returns, neither does
  \<open>Proxy\<close>.
\<close>

theorem Proxy_status:
  assumes d: "distinct ending" and a: "set ending = {SendTask, ReceiveTask, DispatchTask}"
  shows
   "(Proxy S streamSet Send replyChan env recvs events ending = Returned None \<longleftrightarrow>
       (\<forall>t. task_result S streamSet Send replyChan env recvs events t = Returned None)) \<and>
    (\<forall>k e. k < length ending \<and>
       (\<forall>t. \<exists>r. task_result S streamSet Send replyChan env recvs events t = Returned r) \<and>
       task_result S streamSet Send replyChan env recvs events (ending ! k) = Returned (Some e) \<and>
       (\<forall>j<k. task_result S streamSet Send replyChan env recvs events (ending ! j) = Returned None)
       \<longrightarrow> Proxy S streamSet Send replyChan env recvs events ending
             = Returned (Some (status_error Internal (err_Error e)))) \<and>
    ((\<exists>t. \<forall>r. task_result S streamSet Send replyChan env recvs events t \<noteq> Returned r)
       \<longrightarrow> Proxy S streamSet Send replyChan env recvs events ending = Blocked at_Wait)"
proof -
  define res where "res = task_result S streamSet Send replyChan env recvs events"
  define outs where "outs = map res ending"
  have P: "Proxy S streamSet Send replyChan env recvs events ending =
     (case Go_all WithContext outs of
        None \<Rightarrow> Blocked at_Wait
      | Some g \<Rightarrow> (case g_err g of None \<Rightarrow> Returned None
                   | Some err \<Rightarrow> Returned (Some (status_error Internal (err_Error err)))))"
    by (simp add: Proxy_def outs_def res_def group_Wait_def status_Error_def split: option.splits)
  have fresh: "\<not> g_errOnce WithContext" "g_err WithContext = None"
    by (simp_all add: WithContext_def)
  have all_ret: "(\<exists>g. Go_all WithContext outs = Some g) \<longleftrightarrow> (\<forall>t. \<exists>r. res t = Returned r)"
    unfolding outs_def Go_all_Some_iff by (rule all_tasks[OF a])
  have c1: "Proxy S streamSet Send replyChan env recvs events ending = Returned None \<longleftrightarrow>
       (\<forall>t. res t = Returned None)"
  proof (cases "Go_all WithContext outs")
    case None
    with all_ret have "\<not> (\<forall>t. \<exists>r. res t = Returned r)" by simp
    then have "\<not> (\<forall>t. res t = Returned None)" by blast
    then show ?thesis using None P by simp
  next
    case (Some g)
    have "(g_err g = None) = (\<forall>out\<in>set outs. out = Returned None)"
      by (rule Go_all_nil[OF Some fresh])
    also have "\<dots> = (\<forall>t. res t = Returned None)"
      unfolding outs_def by (rule all_tasks[OF a])
    finally show ?thesis using Some P by (simp split: option.splits)
  qed
  have c2: "\<forall>k e. k < length ending \<and> (\<forall>t. \<exists>r. res t = Returned r) \<and>
       res (ending ! k) = Returned (Some e) \<and> (\<forall>j<k. res (ending ! j) = Returned None)
       \<longrightarrow> Proxy S streamSet Send replyChan env recvs events ending
             = Returned (Some (status_error Internal (err_Error e)))"
  proof (intro allI impI)
    fix k e
    assume h: "k < length ending \<and> (\<forall>t. \<exists>r. res t = Returned r) \<and>
       res (ending ! k) = Returned (Some e) \<and> (\<forall>j<k. res (ending ! j) = Returned None)"
    with all_ret obtain g where g: "Go_all WithContext outs = Some g" by blast
    have k: "k < length outs" using h by (simp add: outs_def)
    have o: "outs ! k = Returned (Some e)" using h by (simp add: outs_def)
    have b: "\<forall>j<k. outs ! j = Returned None" using h by (simp add: outs_def)
    have "g_err g = Some e" by (rule Go_all_first[OF g fresh(1) k o b])
    then show "Proxy S streamSet Send replyChan env recvs events ending
             = Returned (Some (status_error Internal (err_Error e)))"
      using g P by simp
  qed
  have c3: "(\<exists>t. \<forall>r. res t \<noteq> Returned r)
       \<longrightarrow> Proxy S streamSet Send replyChan env recvs events ending = Blocked at_Wait"
  proof
    assume "\<exists>t. \<forall>r. res t \<noteq> Returned r"
    with all_ret have "Go_all WithContext outs = None" by (cases "Go_all WithContext outs") auto
    then show "Proxy S streamSet Send replyChan env recvs events ending = Blocked at_Wait"
      using P by simp
  qed
  from c1 c2 c3 show ?thesis unfolding res_def by blast
qed

theorem Proxy_status_witness:
  "Proxy recording_set [] (\<lambda>sent msg. None) (Chan [1::nat, 2] True) []
     [Recv_err (errorString ''connection reset'')] [ctx_Done ctx_Canceled]
     [ReceiveTask, DispatchTask, SendTask]
   = Returned (Some (status_error Internal ''connection reset''))"
proof -
  have d: "distinct [ReceiveTask, DispatchTask, SendTask]" by simp
  have a: "set [ReceiveTask, DispatchTask, SendTask] = {SendTask, ReceiveTask, DispatchTask}"
    by auto
  have r: "\<forall>t. \<exists>r. task_result recording_set [] (\<lambda>sent msg. None) (Chan [1::nat, 2] True) []
     [Recv_err (errorString ''connection reset'')] [ctx_Done ctx_Canceled] t = Returned r"
  proof
    fix t show "\<exists>r. task_result recording_set [] (\<lambda>sent msg. None) (Chan [1::nat, 2] True) []
     [Recv_err (errorString ''connection reset'')] [ctx_Done ctx_Canceled] t = Returned r"
      by (cases t) (simp_all add: task_result_def receive_task_def)
  qed
  have f: "task_result recording_set [] (\<lambda>sent msg. None) (Chan [1::nat, 2] True) []
     [Recv_err (errorString ''connection reset'')] [ctx_Done ctx_Canceled]
     ([ReceiveTask, DispatchTask, SendTask] ! 0) = Returned (Some (errorString ''connection reset''))"
    by (simp add: task_result_def receive_task_def)
  from Proxy_status[OF d a, of recording_set "[]" "\<lambda>sent msg. None" "Chan [1::nat, 2] True" "[]"
     "[Recv_err (errorString ''connection reset'')]" "[ctx_Done ctx_Canceled]"]
  have "\<forall>k e. k < length [ReceiveTask, DispatchTask, SendTask] \<and>
       (\<forall>t. \<exists>r. task_result recording_set [] (\<lambda>sent msg. None) (Chan [1::nat, 2] True) []
     [Recv_err (errorString ''connection reset'')] [ctx_Done ctx_Canceled] t = Returned r) \<and>
       task_result recording_set [] (\<lambda>sent msg. None) (Chan [1::nat, 2] True) []
     [Recv_err (errorString ''connection reset'')] [ctx_Done ctx_Canceled] ([ReceiveTask, DispatchTask, SendTask] ! k) = Returned (Some e) \<and>
       (\<forall>j<k. task_result recording_set [] (\<lambda>sent msg. None) (Chan [1::nat, 2] True) []
     [Recv_err (errorString ''connection reset'')] [ctx_Done ctx_Canceled] ([ReceiveTask, DispatchTask, SendTask] ! j) = Returned None)
       \<longrightarrow> Proxy recording_set [] (\<lambda>sent msg. None) (Chan [1::nat, 2] True) []
     [Recv_err (errorString ''connection reset'')] [ctx_Done ctx_Canceled] [ReceiveTask, DispatchTask, SendTask]
             = Returned (Some (status_error Internal (err_Error e)))"
    by blast
  from this[rule_format, of 0 "errorString ''connection reset''"] r f
  show ?thesis by simp
qed

text \<open>
  An execution in which a task returns a non-nil error and \<open>Proxy\<close> does not return.
  The client sends one frame whose oneof is not set and then nothing more. \<open>receive\<close>
  forwards the frame, \<open>dispatch\<close> returns the error of the default case, \<open>send\<close>
  returns nil at the closed reply channel, and \<open>receive\<close> waits in \<open>stream.Recv()\<close>,
  which does not look at the context of the group: \<open>Wait\<close> does not return.
\<close>

theorem Proxy_waits_after_protocol_error:
  "task_result recording_set [] (\<lambda>sent msg. None) (Chan ([]::nat list) True)
     [\<lparr>chan_ready = True, ctx_Err = None, pick_Done = False\<rparr>]
     [Recv_msg Request_nil] [requestChan_recv Request_nil] DispatchTask
     = Returned (Some (status_error Internal ''unhandled request type <nil>'')) \<and>
   task_result recording_set [] (\<lambda>sent msg. None) (Chan ([]::nat list) True)
     [\<lparr>chan_ready = True, ctx_Err = None, pick_Done = False\<rparr>]
     [Recv_msg Request_nil] [requestChan_recv Request_nil] SendTask
     = Returned None \<and>
   task_result recording_set [] (\<lambda>sent msg. None) (Chan ([]::nat list) True)
     [\<lparr>chan_ready = True, ctx_Err = None, pick_Done = False\<rparr>]
     [Recv_msg Request_nil] [requestChan_recv Request_nil] ReceiveTask
     = Blocked at_Recv \<and>
   Proxy recording_set [] (\<lambda>sent msg. None) (Chan ([]::nat list) True)
     [\<lparr>chan_ready = True, ctx_Err = None, pick_Done = False\<rparr>]
     [Recv_msg Request_nil] [requestChan_recv Request_nil]
     [DispatchTask, SendTask, ReceiveTask]
     = Blocked at_Wait"
  by (simp add: Proxy_def task_result_def receive_task_def status_Error_def Go_return_def
        WithContext_def)

section \<open>The generated client code\<close>

text \<open>
  A decode failure on \<open>Recv\<close> and on the channel of a unary method. Let \<open>r\<close> be a raw
  reply whose error is nil and whose payload does not decode: \<open>UnmarshalTo\<close> fails with
  \<open>derr\<close>. The typed response made from \<open>r\<close> keeps the target and the index of \<open>r\<close>,
  and its error is the text \<open>can't decode any response - \<close>, the text of \<open>derr\<close>,
  \<open>. Original Error - \<close> and the error \<open>r\<close> carried, which prints as \<open><nil>\<close>. The
  failure ends nothing: \<open>Recv\<close> of a streaming method returns the typed responses of the
  whole slice, those after \<open>r\<close> included, with a nil error, and the stream goes on with
  what it has left; the channel of a unary method carries the typed responses of all raw
  replies, those after \<open>r\<close> included, and is closed when the channel of raw replies is.
\<close>

lemma decode_failure:
  assumes nil: "ret_Error r = None"
      and fail: "UnmarshalTo (ret_Resp r) = (m, Some derr)"
  shows "typedResp UnmarshalTo blank r =
           \<lparr>Target = ret_Target r, Index = ret_Index r, Resp = m,
            Error = Some (errorString (''can't decode any response - '' @ err_Error derr
                    @ ''. Original Error - <nil>''))\<rparr> \<and>
         (\<not> Direct (cc x) \<and> RecvMsg_rets (stream x) = (before @ r # after, None) # later
            \<longrightarrow> Recv UnmarshalTo blank x =
                  (Returned (map (typedResp UnmarshalTo blank) before
                             @ typedResp UnmarshalTo blank r
                             # map (typedResp UnmarshalTo blank) after, None),
                   x\<lparr>stream := (stream x)\<lparr>RecvMsg_rets := later\<rparr>\<rparr>)) \<and>
         (length (Targets conn) \<noteq> 1 \<and> InvokeOneMany inp = Inr (Chan (before @ r # after) closed)
            \<longrightarrow> OneMany Invoke InvokeOneMany UnmarshalTo blank conn inp =
                  Inr (Chan (map (typedResp UnmarshalTo blank) before
                             @ typedResp UnmarshalTo blank r
                             # map (typedResp UnmarshalTo blank) after) closed))"
proof (intro conjI impI)
  show "typedResp UnmarshalTo blank r =
           \<lparr>Target = ret_Target r, Index = ret_Index r, Resp = m,
            Error = Some (errorString (''can't decode any response - '' @ err_Error derr
                    @ ''. Original Error - <nil>''))\<rparr>"
    using nil fail by (simp add: typedResp_def fmt_v_def)
next
  assume "\<not> Direct (cc x) \<and> RecvMsg_rets (stream x) = (before @ r # after, None) # later"
  then show "Recv UnmarshalTo blank x =
                  (Returned (map (typedResp UnmarshalTo blank) before
                             @ typedResp UnmarshalTo blank r
                             # map (typedResp UnmarshalTo blank) after, None),
                   x\<lparr>stream := (stream x)\<lparr>RecvMsg_rets := later\<rparr>\<rparr>)"
    by (simp add: Recv_def)
next
  assume a: "length (Targets conn) \<noteq> 1 \<and> InvokeOneMany inp = Inr (Chan (before @ r # after) closed)"
  then have "\<And>t. Targets conn \<noteq> [t]" by auto
  then show "OneMany Invoke InvokeOneMany UnmarshalTo blank conn inp =
                  Inr (Chan (map (typedResp UnmarshalTo blank) before
                             @ typedResp UnmarshalTo blank r
                             # map (typedResp UnmarshalTo blank) after) closed)"
    using a by (simp add: OneMany_def split: list.splits)
qed

lemma decode_failure_example:
  "Recv (\<lambda>a. if a = (7::nat) then (0, Some (errorString ''mismatched message type''))
               else (a, None)) 0
     \<lparr>cc = \<lparr>Targets = [''t1'', ''t2''], Direct = False\<rparr>, directDone = False,
      stream = \<lparr>CloseSend_result = None, RecvMsg_msg = [],
                RecvMsg_rets =
                  [([\<lparr>ret_Target = ''t1'', ret_Index = 0, ret_Resp = 7, ret_Error = None\<rparr>,
                     \<lparr>ret_Target = ''t2'', ret_Index = 1, ret_Resp = 8, ret_Error = None\<rparr>],
                    None)]\<rparr>\<rparr>
   = (Returned
        ([\<lparr>Target = ''t1'', Index = 0, Resp = 0,
           Error = Some (errorString
             ''can't decode any response - mismatched message type. Original Error - <nil>'')\<rparr>,
          \<lparr>Target = ''t2'', Index = 1, Resp = 8, Error = None\<rparr>], None),
      \<lparr>cc = \<lparr>Targets = [''t1'', ''t2''], Direct = False\<rparr>, directDone = False,
       stream = \<lparr>CloseSend_result = None, RecvMsg_msg = [], RecvMsg_rets = []\<rparr>\<rparr>) \<and>
   OneMany (\<lambda>i::nat. (0::nat, None))
     (\<lambda>i. Inr (Chan
        [\<lparr>ret_Target = ''t1'', ret_Index = 0, ret_Resp = 7, ret_Error = None\<rparr>,
         \<lparr>ret_Target = ''t2'', ret_Index = 1, ret_Resp = 8, ret_Error = None\<rparr>] True))
     (\<lambda>a. if a = (7::nat) then (0, Some (errorString ''mismatched message type''))
               else (a, None)) 0
     \<lparr>Targets = [''t1'', ''t2''], Direct = False\<rparr> 5
   = Inr (Chan
        [\<lparr>Target = ''t1'', Index = 0, Resp = 0,
           Error = Some (errorString
             ''can't decode any response - mismatched message type. Original Error - <nil>'')\<rparr>,
          \<lparr>Target = ''t2'', Index = 1, Resp = 8, Error = None\<rparr>] True)"
proof -
  let ?U = "\<lambda>a. if a = (7::nat) then (0::nat, Some (errorString ''mismatched message type''))
               else (a, None)"
  let ?r = "\<lparr>ret_Target = ''t1'', ret_Index = 0, ret_Resp = 7::nat, ret_Error = None\<rparr>"
  have nil: "ret_Error ?r = None" by simp
  have fail: "?U (ret_Resp ?r) = (0, Some (errorString ''mismatched message type''))" by simp
  from decode_failure[where UnmarshalTo = ?U and r = ?r and blank = 0 and before = "[]"
      and after = "[\<lparr>ret_Target = ''t2'', ret_Index = 1, ret_Resp = 8, ret_Error = None\<rparr>]"
      and later = "[]" and conn = "\<lparr>Targets = [''t1'', ''t2''], Direct = False\<rparr>"
      and InvokeOneMany = "\<lambda>i::nat. Inr (Chan
        [\<lparr>ret_Target = ''t1'', ret_Index = 0, ret_Resp = 7, ret_Error = None\<rparr>,
         \<lparr>ret_Target = ''t2'', ret_Index = 1, ret_Resp = 8, ret_Error = None\<rparr>] True)"
      and inp = "5::nat" and closed = True
      and Invoke = "\<lambda>i::nat. (0::nat, None)"
      and x = "\<lparr>cc = \<lparr>Targets = [''t1'', ''t2''], Direct = False\<rparr>, directDone = False,
      stream = \<lparr>CloseSend_result = None, RecvMsg_msg = [],
                RecvMsg_rets =
                  [([\<lparr>ret_Target = ''t1'', ret_Index = 0, ret_Resp = 7, ret_Error = None\<rparr>,
                     \<lparr>ret_Target = ''t2'', ret_Index = 1, ret_Resp = 8, ret_Error = None\<rparr>],
                    None)]\<rparr>\<rparr>", OF nil fail]
  show ?thesis by (simp add: typedResp_def fmt_v_def)
qed

text \<open>
  Claim C6. On a connection with exactly one target \<open>t\<close> the unary \<open>OneMany\<close>
  function returns a channel that carries exactly one response and is then closed. The
  response has target \<open>t\<close> and index 0, its message and its error are those of
  \<open>conn.Invoke\<close>, so the error is non-nil exactly when the direct call failed.
  \<open>InvokeOneMany\<close> and the decoding of raw replies have no part in the result.
\<close>

theorem OneMany_single_target:
  assumes "Targets conn = [t]"
  shows "\<exists>r. OneMany Invoke InvokeOneMany UnmarshalTo blank conn inp = Inr (Chan [r] True) \<and>
           Target r = t \<and> Index r = 0 \<and> Resp r = fst (Invoke inp) \<and> Error r = snd (Invoke inp) \<and>
           (Error r \<noteq> None \<longleftrightarrow> snd (Invoke inp) \<noteq> None) \<and>
           OneMany Invoke InvokeOneMany' UnmarshalTo' blank' conn inp = Inr (Chan [r] True)"
  using assms by (simp add: OneMany_def split: prod.splits)

theorem OneMany_single_target_witness:
  "OneMany (\<lambda>i. (i + 1, None)) (\<lambda>i. Inl io_EOF) (\<lambda>a. (a, None)) 0
     \<lparr>Targets = [''t1''], Direct = False\<rparr> (41::nat)
   = Inr (Chan [\<lparr>Target = ''t1'', Index = 0, Resp = 42::nat, Error = None\<rparr>] True)"
proof -
  have one: "Targets \<lparr>Targets = [''t1''], Direct = False\<rparr> = [''t1'']" by simp
  from OneMany_single_target[OF one, where Invoke = "\<lambda>i. (i + 1, None)"
      and InvokeOneMany = "\<lambda>i::nat. Inl io_EOF" and InvokeOneMany' = "\<lambda>i::nat. Inl io_EOF"
      and UnmarshalTo = "\<lambda>a::nat. (a, None)" and UnmarshalTo' = "\<lambda>a::nat. (a, None)"
      and blank = "0::nat" and blank' = "0::nat" and inp = "41::nat"]
  obtain r where r: "OneMany (\<lambda>i. (i + 1, None)) (\<lambda>i. Inl io_EOF) (\<lambda>a. (a, None)) 0
     \<lparr>Targets = [''t1''], Direct = False\<rparr> (41::nat) = Inr (Chan [r] True)"
    "Target r = ''t1''" "Index r = 0" "Resp r = 42" "Error r = None"
    by auto
  then have "r = \<lparr>Target = ''t1'', Index = 0, Resp = 42::nat, Error = None\<rparr>" by (cases r) simp
  with r(1) show ?thesis by simp
qed

lemma Recv_direct_cases:
  assumes "Direct (cc x)" "Targets (cc x) = [t]" "Recv UnmarshalTo blank x = (Returned v, x')"
  shows "cc x' = cc x \<and>
     ((directDone x \<and> v = ([], Some io_EOF) \<and> x' = x) \<or>
      (\<not> directDone x \<and> (\<exists>m err rest. RecvMsg_msg (stream x) = (m, err) # rest \<and>
          v = ([\<lparr>Target = t, Index = 0, Resp = m, Error = err\<rparr>], None) \<and>
          directDone x' = (err \<noteq> None))))"
  using assms
  by (auto simp: Recv_def recv_direct_def Let_def split: if_splits list.splits prod.splits)

lemma Recv_calls_done:
  "Direct (cc x) \<Longrightarrow> directDone x \<Longrightarrow>
     Recv_calls UnmarshalTo blank n x = replicate n (Returned ([], Some io_EOF))"
proof (induction n)
  case 0
  show ?case by simp
next
  case (Suc n)
  have "Recv UnmarshalTo blank x = (Returned ([], Some io_EOF), x)"
    using Suc.prems by (simp add: Recv_def recv_direct_def)
  then show ?case using Suc.IH[OF Suc.prems] by simp
qed

lemma after_error_EOF:
  "Direct (cc x) \<Longrightarrow> Targets (cc x) = [t] \<Longrightarrow> i < j
    \<Longrightarrow> j < length (Recv_calls UnmarshalTo blank n x)
    \<Longrightarrow> Recv_calls UnmarshalTo blank n x ! i = Returned ([r], None) \<Longrightarrow> Error r \<noteq> None
    \<Longrightarrow> Recv_calls UnmarshalTo blank n x ! j = Returned ([], Some io_EOF)"
proof (induction n arbitrary: x i j)
  case 0
  then show ?case by simp
next
  case (Suc n)
  obtain out x' where R: "Recv UnmarshalTo blank x = (out, x')"
    by (cases "Recv UnmarshalTo blank x")
  obtain j' where j: "j = Suc j'" using Suc.prems(3) by (cases j) auto
  show ?case
  proof (cases out)
    case (Returned v)
    have calls: "Recv_calls UnmarshalTo blank (Suc n) x
        = Returned v # Recv_calls UnmarshalTo blank n x'"
      using R Returned by simp
    note c = Recv_direct_cases[OF Suc.prems(1,2) R[unfolded Returned]]
    have cc': "Direct (cc x')" "Targets (cc x') = [t]" using c Suc.prems(1,2) by simp_all
    have jl: "j' < length (Recv_calls UnmarshalTo blank n x')"
      using Suc.prems(4) calls j by simp
    show ?thesis
    proof (cases i)
      case 0
      with Suc.prems(5) calls have v: "v = ([r], None)" by simp
      with c obtain m err where "r = \<lparr>Target = t, Index = 0, Resp = m, Error = err\<rparr>"
        "directDone x' = (err \<noteq> None)" by auto
      with Suc.prems(6) have "directDone x'" by simp
      from Recv_calls_done[OF cc'(1) this]
      have "Recv_calls UnmarshalTo blank n x' = replicate n (Returned ([], Some io_EOF))" .
      then have "Recv_calls UnmarshalTo blank n x' ! j' = Returned ([], Some io_EOF)"
        using jl by simp
      then show ?thesis using calls j by simp
    next
      case (Suc i')
      have a: "i' < j'" using Suc.prems(3) Suc j by simp
      have b: "Recv_calls UnmarshalTo blank n x' ! i' = Returned ([r], None)"
        using Suc.prems(5) calls Suc by simp
      from Suc.IH[OF cc' a jl b Suc.prems(6)] show ?thesis using calls j by simp
    qed
  next
    case (Blocked p)
    then have "Recv_calls UnmarshalTo blank (Suc n) x = [out]" using R by simp
    with Suc.prems(4) j show ?thesis by simp
  next
    case Panicked
    then have "Recv_calls UnmarshalTo blank (Suc n) x = [out]" using R by simp
    with Suc.prems(4) j show ?thesis by simp
  qed
qed

lemma calls_shape:
  "Direct (cc x) \<Longrightarrow> Targets (cc x) = [t] \<Longrightarrow> i < length (Recv_calls UnmarshalTo blank n x)
    \<Longrightarrow> Recv_calls UnmarshalTo blank n x ! i = Returned (rs, e)
    \<Longrightarrow> (e = None \<and> (\<exists>m err. rs = [\<lparr>Target = t, Index = 0, Resp = m, Error = err\<rparr>])) \<or>
        (rs = [] \<and> e = Some io_EOF)"
proof (induction n arbitrary: x i)
  case 0
  then show ?case by simp
next
  case (Suc n)
  obtain out x' where R: "Recv UnmarshalTo blank x = (out, x')"
    by (cases "Recv UnmarshalTo blank x")
  show ?case
  proof (cases out)
    case (Returned v)
    have calls: "Recv_calls UnmarshalTo blank (Suc n) x
        = Returned v # Recv_calls UnmarshalTo blank n x'"
      using R Returned by simp
    note c = Recv_direct_cases[OF Suc.prems(1,2) R[unfolded Returned]]
    have cc': "Direct (cc x')" "Targets (cc x') = [t]" using c Suc.prems(1,2) by simp_all
    show ?thesis
    proof (cases i)
      case 0
      with Suc.prems(4) calls have "v = (rs, e)" by simp
      with c show ?thesis by auto
    next
      case (Suc i')
      have a: "i' < length (Recv_calls UnmarshalTo blank n x')"
        using Suc.prems(3) calls Suc by simp
      have b: "Recv_calls UnmarshalTo blank n x' ! i' = Returned (rs, e)"
        using Suc.prems(4) calls Suc by simp
      show ?thesis by (rule Suc.IH[OF cc' a b])
    qed
  next
    case (Blocked p)
    then have "Recv_calls UnmarshalTo blank (Suc n) x = [out]" using R by simp
    with Suc.prems(3,4) Blocked show ?thesis by simp
  next
    case Panicked
    then have "Recv_calls UnmarshalTo blank (Suc n) x = [out]" using R by simp
    with Suc.prems(3,4) Panicked show ?thesis by simp
  qed
qed

text \<open>
  Claim C5. Let the connection be direct with the single target \<open>t\<close>. A call of
  \<open>Recv\<close> that receives a message from the underlying stream returns exactly one
  response, with target \<open>t\<close> and index 0, and a nil error; an error of the underlying
  stream is the error field of that response. Every call that returns gives either
  such a single response or a nil slice with \<open>io.EOF\<close>. Once a call has returned a
  response whose error is non-nil, every later call returns a nil slice with \<open>io.EOF\<close>.
\<close>

theorem direct_Recv:
  assumes d: "Direct (cc x)" and t: "Targets (cc x) = [t]"
  shows
   "(\<not> directDone x \<and> RecvMsg_msg (stream x) = (m, None) # rest \<longrightarrow>
       Recv UnmarshalTo blank x =
         (Returned ([\<lparr>Target = t, Index = 0, Resp = m, Error = None\<rparr>], None),
          x\<lparr>stream := (stream x)\<lparr>RecvMsg_msg := rest\<rparr>\<rparr>)) \<and>
    (\<not> directDone x \<and> RecvMsg_msg (stream x) = (m, Some e) # rest \<longrightarrow>
       Recv UnmarshalTo blank x =
         (Returned ([\<lparr>Target = t, Index = 0, Resp = m, Error = Some e\<rparr>], None),
          x\<lparr>stream := (stream x)\<lparr>RecvMsg_msg := rest\<rparr>, directDone := True\<rparr>)) \<and>
    (\<forall>i rs e'. i < length (Recv_calls UnmarshalTo blank n x) \<and>
       Recv_calls UnmarshalTo blank n x ! i = Returned (rs, e') \<longrightarrow>
         (e' = None \<and> (\<exists>m err. rs = [\<lparr>Target = t, Index = 0, Resp = m, Error = err\<rparr>])) \<or>
         (rs = [] \<and> e' = Some io_EOF)) \<and>
    (\<forall>i j r. i < j \<and> j < length (Recv_calls UnmarshalTo blank n x) \<and>
       Recv_calls UnmarshalTo blank n x ! i = Returned ([r], None) \<and> Error r \<noteq> None \<longrightarrow>
         Recv_calls UnmarshalTo blank n x ! j = Returned ([], Some io_EOF))"
proof (intro conjI allI impI)
  assume "\<not> directDone x \<and> RecvMsg_msg (stream x) = (m, None) # rest"
  then show "Recv UnmarshalTo blank x =
         (Returned ([\<lparr>Target = t, Index = 0, Resp = m, Error = None\<rparr>], None),
          x\<lparr>stream := (stream x)\<lparr>RecvMsg_msg := rest\<rparr>\<rparr>)"
    using d t by (simp add: Recv_def recv_direct_def)
next
  assume "\<not> directDone x \<and> RecvMsg_msg (stream x) = (m, Some e) # rest"
  then show "Recv UnmarshalTo blank x =
         (Returned ([\<lparr>Target = t, Index = 0, Resp = m, Error = Some e\<rparr>], None),
          x\<lparr>stream := (stream x)\<lparr>RecvMsg_msg := rest\<rparr>, directDone := True\<rparr>)"
    using d t by (simp add: Recv_def recv_direct_def)
next
  fix i rs e'
  assume "i < length (Recv_calls UnmarshalTo blank n x) \<and>
       Recv_calls UnmarshalTo blank n x ! i = Returned (rs, e')"
  then show "(e' = None \<and> (\<exists>m err. rs = [\<lparr>Target = t, Index = 0, Resp = m, Error = err\<rparr>])) \<or>
         (rs = [] \<and> e' = Some io_EOF)"
    using calls_shape[OF d t] by blast
next
  fix i j r
  assume "i < j \<and> j < length (Recv_calls UnmarshalTo blank n x) \<and>
       Recv_calls UnmarshalTo blank n x ! i = Returned ([r], None) \<and> Error r \<noteq> None"
  then show "Recv_calls UnmarshalTo blank n x ! j = Returned ([], Some io_EOF)"
    using after_error_EOF[OF d t] by blast
qed

theorem direct_Recv_witness:
  "Recv_calls (\<lambda>a. (a, None)) (0::nat) (Suc (Suc (Suc (Suc 0))))
     \<lparr>cc = \<lparr>Targets = [''t1''], Direct = True\<rparr>, directDone = False,
      stream = \<lparr>CloseSend_result = None,
                RecvMsg_msg = [(1, None), (0, Some (status_error Unavailable ''down'')), (3, None)],
                RecvMsg_rets = []\<rparr>\<rparr>
   = [Returned ([\<lparr>Target = ''t1'', Index = 0, Resp = 1, Error = None\<rparr>], None),
      Returned ([\<lparr>Target = ''t1'', Index = 0, Resp = 0,
                  Error = Some (status_error Unavailable ''down'')\<rparr>], None),
      Returned ([], Some io_EOF),
      Returned ([], Some io_EOF)]"
proof -
  let ?x = "\<lparr>cc = \<lparr>Targets = [''t1''], Direct = True\<rparr>, directDone = False,
      stream = \<lparr>CloseSend_result = None,
                RecvMsg_msg = [(1::nat, None), (0, Some (status_error Unavailable ''down'')), (3, None)],
                RecvMsg_rets = []::(nat Ret list \<times> error option) list\<rparr>\<rparr>"
  have d: "Direct (cc ?x)" and t: "Targets (cc ?x) = [''t1'']" by simp_all
  have two: "take 2 (Recv_calls (\<lambda>a. (a, None)) (0::nat) (Suc (Suc (Suc (Suc 0)))) ?x)
     = [Returned ([\<lparr>Target = ''t1'', Index = 0, Resp = 1, Error = None\<rparr>], None),
        Returned ([\<lparr>Target = ''t1'', Index = 0, Resp = 0,
                  Error = Some (status_error Unavailable ''down'')\<rparr>], None)]"
    and len: "length (Recv_calls (\<lambda>a. (a, None)) (0::nat) (Suc (Suc (Suc (Suc 0)))) ?x) = 4"
    by (simp_all add: Recv_def recv_direct_def)
  have second: "Recv_calls (\<lambda>a. (a, None)) (0::nat) (Suc (Suc (Suc (Suc 0)))) ?x ! 1
     = Returned ([\<lparr>Target = ''t1'', Index = 0, Resp = 0,
                  Error = Some (status_error Unavailable ''down'')\<rparr>], None)"
    by (simp add: Recv_def recv_direct_def)
  note T = direct_Recv[OF d t, of 0 "[]" "(\<lambda>a. (a, None))" 0 io_EOF "Suc (Suc (Suc (Suc 0)))"]
  from T have after: "\<forall>i j r. i < j \<and>
       j < length (Recv_calls (\<lambda>a. (a, None)) (0::nat) (Suc (Suc (Suc (Suc 0)))) ?x) \<and>
       Recv_calls (\<lambda>a. (a, None)) (0::nat) (Suc (Suc (Suc (Suc 0)))) ?x ! i = Returned ([r], None) \<and>
       Error r \<noteq> None \<longrightarrow>
         Recv_calls (\<lambda>a. (a, None)) (0::nat) (Suc (Suc (Suc (Suc 0)))) ?x ! j
           = Returned ([], Some io_EOF)"
    by blast
  have e2: "Recv_calls (\<lambda>a. (a, None)) (0::nat) (Suc (Suc (Suc (Suc 0)))) ?x ! 2
      = Returned ([], Some io_EOF)"
    using after[rule_format, of 1 2] len second by simp
  have e3: "Recv_calls (\<lambda>a. (a, None)) (0::nat) (Suc (Suc (Suc (Suc 0)))) ?x ! 3
      = Returned ([], Some io_EOF)"
    using after[rule_format, of 1 3] len second by simp
  show ?thesis
  proof (rule nth_equalityI)
    show "length (Recv_calls (\<lambda>a. (a, None)) (0::nat) (Suc (Suc (Suc (Suc 0)))) ?x) =
      length [Returned ([\<lparr>Target = ''t1'', Index = 0, Resp = 1, Error = None\<rparr>], None),
      Returned ([\<lparr>Target = ''t1'', Index = 0, Resp = 0,
                  Error = Some (status_error Unavailable ''down'')\<rparr>], None),
      Returned ([], Some io_EOF),
      Returned ([], Some io_EOF)]" using len by simp
  next
    fix i assume "i < length (Recv_calls (\<lambda>a. (a, None)) (0::nat) (Suc (Suc (Suc (Suc 0)))) ?x)"
    then have "i = 0 \<or> i = 1 \<or> i = 2 \<or> i = 3" using len by auto
    moreover have "Recv_calls (\<lambda>a. (a, None)) (0::nat) (Suc (Suc (Suc (Suc 0)))) ?x ! 0
        = Returned ([\<lparr>Target = ''t1'', Index = 0, Resp = 1, Error = None\<rparr>], None)"
      by (simp add: Recv_def recv_direct_def)
    ultimately show "Recv_calls (\<lambda>a. (a, None)) (0::nat) (Suc (Suc (Suc (Suc 0)))) ?x ! i =
      [Returned ([\<lparr>Target = ''t1'', Index = 0, Resp = 1, Error = None\<rparr>], None),
      Returned ([\<lparr>Target = ''t1'', Index = 0, Resp = 0,
                  Error = Some (status_error Unavailable ''down'')\<rparr>], None),
      Returned ([], Some io_EOF),
      Returned ([], Some io_EOF)] ! i"
      using second e2 e3 by (auto simp: numeral_2_eq_2 numeral_3_eq_3)
  qed
qed

lemma loop_never_collects:
  "\<not> list_all snd eof \<Longrightarrow> fst (CloseAndRecv_loop UnmarshalTo blank eof script ret) \<noteq> Returned (rs, None)"
proof (induction script arbitrary: ret)
  case Nil
  then show ?case by simp
next
  case (Cons a script)
  obtain m err where a: "a = (m, err)" by (cases a)
  show ?case
  proof (cases err)
    case None
    have "CloseAndRecv_loop UnmarshalTo blank eof (a # script) ret
         = CloseAndRecv_loop UnmarshalTo blank eof script (ret @ map (typedResp UnmarshalTo blank) m)"
      using a None Cons.prems by simp
    then show ?thesis using Cons.IH[OF Cons.prems] by simp
  next
    case (Some e)
    then show ?thesis using a Cons.prems by simp
  qed
qed

lemma CloseAndRecv_never_collects:
  assumes "\<not> Direct (cc x)" "Targets (cc x) \<noteq> []"
  shows "fst (CloseAndRecv UnmarshalTo blank x) \<noteq> Returned (rs, None)"
proof (cases "CloseSend_result (stream x)")
  case (Some e)
  then show ?thesis by (simp add: CloseAndRecv_def)
next
  case None
  let ?eof = "map (\<lambda>i. (i, False)) [0 ..< length (Targets (cc x))]"
  have "\<not> list_all snd ?eof" using assms(2) by (cases "Targets (cc x)") (simp_all add: upt_rec)
  from loop_never_collects[OF this]
  have "fst (CloseAndRecv_loop UnmarshalTo blank ?eof (RecvMsg_rets (stream x)) []) \<noteq> Returned (rs, None)" .
  then show ?thesis using None assms(1) by (auto simp add: CloseAndRecv_def split: prod.splits)
qed

lemma loop_only_errors:
  "\<not> list_all snd eof \<Longrightarrow>
     fst (CloseAndRecv_loop UnmarshalTo blank eof script ret) = Returned (rs, e)
     \<Longrightarrow> rs = [] \<and> e \<noteq> None"
proof (induction script arbitrary: ret)
  case Nil
  then show ?case by simp
next
  case (Cons a script)
  obtain m err where a: "a = (m, err)" by (cases a)
  show ?case
  proof (cases err)
    case None
    have "CloseAndRecv_loop UnmarshalTo blank eof (a # script) ret
         = CloseAndRecv_loop UnmarshalTo blank eof script (ret @ map (typedResp UnmarshalTo blank) m)"
      using a None Cons.prems(1) by simp
    with Cons.prems(2) have "fst (CloseAndRecv_loop UnmarshalTo blank eof script
         (ret @ map (typedResp UnmarshalTo blank) m)) = Returned (rs, e)" by simp
    then show ?thesis by (rule Cons.IH[OF Cons.prems(1)])
  next
    case (Some e')
    then show ?thesis using a Cons.prems by auto
  qed
qed

lemma CloseAndRecv_only_errors:
  assumes "\<not> Direct (cc x)" "Targets (cc x) \<noteq> []"
      and "fst (CloseAndRecv UnmarshalTo blank x) = Returned (rs, e)"
  shows "rs = [] \<and> e \<noteq> None"
proof (cases "CloseSend_result (stream x)")
  case (Some e')
  then have "fst (CloseAndRecv UnmarshalTo blank x) = Returned ([], Some e')"
    by (simp add: CloseAndRecv_def)
  with assms(3) show ?thesis by auto
next
  case None
  let ?eof = "map (\<lambda>i. (i, False)) [0 ..< length (Targets (cc x))]"
  have n: "\<not> list_all snd ?eof" using assms(2) by (cases "Targets (cc x)") (simp_all add: upt_rec)
  have "fst (CloseAndRecv UnmarshalTo blank x)
      = fst (CloseAndRecv_loop UnmarshalTo blank ?eof (RecvMsg_rets (stream x)) [])"
    using None assms(1) by (simp add: CloseAndRecv_def split: prod.splits)
  with assms(3) have "fst (CloseAndRecv_loop UnmarshalTo blank ?eof (RecvMsg_rets (stream x)) [])
      = Returned (rs, e)" by simp
  then show ?thesis by (rule loop_only_errors[OF n])
qed

text \<open>
  Claim C3. Here \<open>CloseAndRecv\<close> is run on a proxy connection with the single target
  \<open>t1\<close>. \<open>CloseSend\<close> succeeds; the first \<open>RecvMsg\<close> gives the reply of \<open>t1\<close>, the
  second gives the end of the stream of \<open>t1\<close> (a raw reply whose error is \<open>io.EOF\<close>),
  so that the only target has reported its terminal status; the third returns
  \<open>io.EOF\<close>. The loop never sets an entry of \<open>eof\<close>, so it does not end when the
  targets are done: it calls \<open>RecvMsg\<close> again, and \<open>CloseAndRecv\<close> returns a nil slice
  and \<open>io.EOF\<close> in place of the two responses it has collected.
\<close>

theorem CloseAndRecv_drops_collected:
  "CloseAndRecv (\<lambda>a. (a, None)) (0::nat)
     \<lparr>cc = \<lparr>Targets = [''t1''], Direct = False\<rparr>, directDone = False,
      stream = \<lparr>CloseSend_result = None, RecvMsg_msg = [],
                RecvMsg_rets =
                  [([\<lparr>ret_Target = ''t1'', ret_Index = 0, ret_Resp = 42, ret_Error = None\<rparr>],
                    None),
                   ([\<lparr>ret_Target = ''t1'', ret_Index = 0, ret_Resp = 0,
                      ret_Error = Some io_EOF\<rparr>], None),
                   ([], Some io_EOF)]\<rparr>\<rparr>
   = (Returned ([], Some io_EOF),
      \<lparr>cc = \<lparr>Targets = [''t1''], Direct = False\<rparr>, directDone = False,
       stream = \<lparr>CloseSend_result = None, RecvMsg_msg = [], RecvMsg_rets = []\<rparr>\<rparr>)"
  by (simp add: CloseAndRecv_def)

text \<open>
  Claim C4. Here \<open>CloseAndRecv\<close> is run on a proxy connection with the single target
  \<open>t1\<close>, with an output message that payload 7 does not decode to. \<open>CloseSend\<close>
  succeeds; the first \<open>RecvMsg\<close> gives a reply of \<open>t1\<close> with a nil error and payload 7,
  the second the end of the stream of \<open>t1\<close>, the third returns \<open>io.EOF\<close>. The loop
  makes from the first reply the response whose error tells of the decode failure and
  collects it, but, as no entry of \<open>eof\<close> is ever set, it leaves only at the error of
  \<open>RecvMsg\<close>: \<open>CloseAndRecv\<close> returns a nil slice and \<open>io.EOF\<close>, and the response with
  the decode failure is never handed to the caller.
\<close>

theorem CloseAndRecv_drops_decode_failure:
  "typedResp (\<lambda>a. if a = (7::nat) then (0::nat, Some (errorString ''mismatched message type''))
                    else (a, None)) 0
     \<lparr>ret_Target = ''t1'', ret_Index = 0, ret_Resp = 7, ret_Error = None\<rparr>
   = \<lparr>Target = ''t1'', Index = 0, Resp = 0,
      Error = Some (errorString
        ''can't decode any response - mismatched message type. Original Error - <nil>'')\<rparr> \<and>
   CloseAndRecv (\<lambda>a. if a = (7::nat) then (0::nat, Some (errorString ''mismatched message type''))
                    else (a, None)) 0
     \<lparr>cc = \<lparr>Targets = [''t1''], Direct = False\<rparr>, directDone = False,
      stream = \<lparr>CloseSend_result = None, RecvMsg_msg = [],
                RecvMsg_rets =
                  [([\<lparr>ret_Target = ''t1'', ret_Index = 0, ret_Resp = 7, ret_Error = None\<rparr>],
                    None),
                   ([\<lparr>ret_Target = ''t1'', ret_Index = 0, ret_Resp = 0,
                      ret_Error = Some io_EOF\<rparr>], None),
                   ([], Some io_EOF)]\<rparr>\<rparr>
   = (Returned ([], Some io_EOF),
      \<lparr>cc = \<lparr>Targets = [''t1''], Direct = False\<rparr>, directDone = False,
       stream = \<lparr>CloseSend_result = None, RecvMsg_msg = [], RecvMsg_rets = []\<rparr>\<rparr>)"
  by (simp add: CloseAndRecv_def typedResp_def fmt_v_def)

end
